theory Spec2Isabelle
  imports Main "HOL-Library.Word" "HOL-Library.Sublist"
begin

section \<open>Go values used by the tunnel\<close>

text \<open>
  The tunnel is one Go file: a \<open>client\<close> struct, its constructor \<open>newClient\<close>
  and the methods \<open>Run\<close>, \<open>serve\<close>, \<open>handleConn\<close>, \<open>duplexCopy\<close>, \<open>connCopy\<close> and
  \<open>shutdown\<close>. The values of the Go runtime and of its libraries that the file uses are
  modelled first: errors, panics, log lines, channels and the wait group counter.
\<close>

type_synonym byte = "8 word"

text \<open>\<open>time.Duration\<close> is an \<open>int64\<close> count of nanoseconds; multiplication wraps.\<close>

type_synonym duration = "64 word"

definition time_Second :: duration where
  "time_Second = 1000000000"

text \<open>
  An \<open>error\<close> value is either a \<open>*net.OpError\<close>, of which the tunnel reads the field
  \<open>Op\<close>, or a value of any other dynamic type.
\<close>

datatype go_error = OpError (op_tag: string) (op_text: string) | OtherError string

datatype panic = CloseOfClosedChannel | SendOnClosedChannel | NegativeWaitGroupCounter

datatype os_signal = Interrupt | Kill

subsection \<open>The logger\<close>

text \<open>
  \<open>log\<close> is a logrus logger. A log line is its level, its format string and its
  arguments. \<open>Fatalf\<close> of logrus writes the line and then ends the process with exit
  status 1, so the statement that follows a \<open>log.Fatalf\<close> in the source never runs.
\<close>

datatype level = FatalLevel | ErrorLevel | WarnLevel | InfoLevel

datatype arg = AStr string | AErr go_error

type_synonym log_entry = "level \<times> string \<times> arg list"

subsection \<open>Channels\<close>

text \<open>
  A channel is its buffer, its capacity and whether it has been closed. \<open>close\<close> of a
  closed channel panics. A receive is ready when the buffer holds an element or the
  channel is closed; a send on a buffered channel is ready when the buffer has room. The
  unbuffered channels of the tunnel (\<open>c.done\<close> and the two local \<open>ch\<close>) are never
  sent on, only closed.
\<close>

record 'a chan =
  buf :: "'a list"
  cap :: nat
  is_closed :: bool

definition make_chan :: "nat \<Rightarrow> 'a chan" where
  "make_chan n = \<lparr>buf = [], cap = n, is_closed = False\<rparr>"

definition chan_close :: "'a chan \<Rightarrow> panic + 'a chan" where
  "chan_close c = (if is_closed c then Inl CloseOfClosedChannel else Inr (c\<lparr>is_closed := True\<rparr>))"

definition recv_ready :: "'a chan \<Rightarrow> bool" where
  "recv_ready c = (buf c \<noteq> [] \<or> is_closed c)"

text \<open>The channel after a receive that was ready: the head of the buffer, if any, is gone.\<close>

definition chan_recv :: "'a chan \<Rightarrow> 'a chan" where
  "chan_recv c = c\<lparr>buf := tl (buf c)\<rparr>"

text \<open>A send: \<open>None\<close> when it would block, a panic on a closed channel.\<close>

definition chan_send :: "'a \<Rightarrow> 'a chan \<Rightarrow> (panic + 'a chan) option" where
  "chan_send x c =
     (if is_closed c then Some (Inl SendOnClosedChannel)
      else if length (buf c) < cap c then Some (Inr (c\<lparr>buf := buf c @ [x]\<rparr>))
      else None)"

text \<open>\<open>wg.Done()\<close> panics when the counter would become negative.\<close>

definition wg_Done :: "int \<Rightarrow> panic + int" where
  "wg_Done w = (if w - 1 < 0 then Inl NegativeWaitGroupCounter else Inr (w - 1))"

section \<open>The client\<close>

record client =
  listenAddress :: string
  targetAddress :: string
  proxyAddress :: string
  keepAlivePeriod :: duration
  dialTimeout :: duration
  wg :: int
  errChan :: "go_error chan"
  signal :: "os_signal chan"
  done_ch :: "unit chan"

text \<open>
  \<open>newClient\<close>, with the two durations assigned as the source assigns them
  (\<open>keepAlivePeriod: dialTimeout * time.Second\<close> and the converse).
\<close>

definition newClient ::
  "string \<Rightarrow> string \<Rightarrow> string \<Rightarrow> duration \<Rightarrow> duration \<Rightarrow> os_signal chan \<Rightarrow> client" where
  "newClient la ta pa dialTimeout' keepAlivePeriod' sigChan =
     \<lparr>listenAddress = la,
      targetAddress = ta,
      proxyAddress = pa,
      keepAlivePeriod = dialTimeout' * time_Second,
      dialTimeout = keepAlivePeriod' * time_Second,
      wg = 0,
      errChan = make_chan 1,
      signal = sigChan,
      done_ch = make_chan 0\<rparr>"

subsection \<open>shutdown\<close>

text \<open>
  \<^verbatim>\<open>select { case <-c.done: return; default: }; close(c.done)\<close>
\<close>

definition shutdown :: "client \<Rightarrow> panic + client" where
  "shutdown c =
     (if recv_ready (done_ch c) then Inr (c\<lparr>done_ch := chan_recv (done_ch c)\<rparr>)
      else (case chan_close (done_ch c) of
              Inl p \<Rightarrow> Inl p
            | Inr d \<Rightarrow> Inr (c\<lparr>done_ch := d\<rparr>)))"

text \<open>\<open>n\<close> calls of \<open>shutdown\<close> one after the other; a panic ends the sequence.\<close>

fun shutdown_times :: "nat \<Rightarrow> client \<Rightarrow> panic + client" where
  "shutdown_times 0 c = Inr c"
| "shutdown_times (Suc n) c =
     (case shutdown c of Inl p \<Rightarrow> Inl p | Inr c' \<Rightarrow> shutdown_times n c')"

subsection \<open>connCopy: what is logged once io.Copy has returned\<close>

text \<open>
  The body of \<open>connCopy\<close> after \<open>io.Copy\<close>: nothing for \<open>nil\<close>, nothing for a
  \<open>*net.OpError\<close> whose \<open>Op\<close> is \<open>readfrom\<close> or \<open>read\<close>, and one error line with
  \<open>src.RemoteAddr()\<close>, \<open>dst.RemoteAddr()\<close> and the error otherwise.
\<close>

fun connCopy_report :: "go_error option \<Rightarrow> string \<Rightarrow> string \<Rightarrow> log_entry list" where
  "connCopy_report None srcAddr dstAddr = []"
| "connCopy_report (Some (OpError opr txt)) srcAddr dstAddr =
     (if opr = ''readfrom'' then []
      else if opr = ''read'' then []
      else [(ErrorLevel, ''failed to copy connection from %s to %s: %s'',
             [AStr srcAddr, AStr dstAddr, AErr (OpError opr txt)])])"
| "connCopy_report (Some (OtherError txt)) srcAddr dstAddr =
     [(ErrorLevel, ''failed to copy connection from %s to %s: %s'',
       [AStr srcAddr, AStr dstAddr, AErr (OtherError txt)])]"

section \<open>Connections\<close>

text \<open>
  A \<open>net.Conn\<close> of the tunnel, with what the copy reads and writes made explicit:
  \<open>inbuf\<close> holds the bytes that have arrived from the peer and have not been read yet,
  \<open>outbuf\<close> the bytes written to the connection, \<open>peer_eof\<close> says that the peer has
  closed its sending half, and \<open>nclose\<close> counts the calls of \<open>Close\<close>. \<open>peer_sent\<close>
  records every byte the peer has sent, for the statements about the relay.
\<close>

record conn =
  remoteAddr :: string
  localAddr :: string
  nclose :: nat
  inbuf :: "byte list"
  peer_sent :: "byte list"
  peer_eof :: bool
  outbuf :: "byte list"

definition new_conn :: "string \<times> string \<Rightarrow> conn" where
  "new_conn a =
     \<lparr>remoteAddr = fst a, localAddr = snd a, nclose = 0, inbuf = [], peer_sent = [],
      peer_eof = False, outbuf = []\<rparr>"

definition conn_Close :: "conn \<Rightarrow> conn" where
  "conn_Close k = k\<lparr>nclose := Suc (nclose k)\<rparr>"

section \<open>A tunnel session: handleConn, duplexCopy and the two connCopy tasks\<close>

text \<open>
  A session is the goroutine of \<open>handleConn\<close>, the goroutine of \<open>duplexCopy\<close> it starts
  and the two goroutines of \<open>connCopy\<close> that \<open>duplexCopy\<close> starts. Each goroutine is
  a program counter; the goroutines run interleaved, one step at a time. A copy task is
  named by the side it reads from: the task of \<open>Accepted\<close> is
  \<open>connCopy(rConn, conn, copyDone)\<close>, the task of \<open>Remote\<close> is
  \<open>connCopy(conn, rConn, copyDone)\<close>.
\<close>

datatype side = Accepted | Remote

fun other :: "side \<Rightarrow> side" where
  "other Accepted = Remote"
| "other Remote = Accepted"

datatype handler_pc = H_start | H_select | H_close_remote | H_close_accepted | H_wgdone | H_finished

datatype duplex_pc = D_idle | D_start | D_recv | D_close_ch | D_wgdone | D_finished

datatype copy_pc = C_idle | C_copying | C_returned "go_error option" | C_send | C_wgdone | C_finished

record session =
  conn_of :: "side \<Rightarrow> conn"
  hpc :: handler_pc
  dpc :: duplex_pc
  cpc :: "side \<Rightarrow> copy_pc"
  io_result :: "side \<Rightarrow> go_error option option"
  ch :: "unit chan"
  copyDone :: "unit chan"

text \<open>
  The session that \<open>serve\<close> hands to \<open>go c.handleConn(accepted, dialed)\<close>. The two
  channels are created later, by \<open>handleConn\<close> and by \<open>duplexCopy\<close>.
\<close>

definition new_session :: "string \<times> string \<Rightarrow> string \<times> string \<Rightarrow> session" where
  "new_session a r =
     \<lparr>conn_of = (\<lambda>d. case d of Accepted \<Rightarrow> new_conn a | Remote \<Rightarrow> new_conn r),
      hpc = H_start, dpc = D_idle, cpc = (\<lambda>d. C_idle), io_result = (\<lambda>d. None),
      ch = make_chan 0, copyDone = make_chan 0\<rparr>"

text \<open>
  The steps of a session. The steps of \<open>io.Copy(dst, src)\<close> follow its contract: it
  reads a chunk from \<open>src\<close> and writes it to \<open>dst\<close>, again and again, until a read
  reports the end of the stream (then it returns \<open>nil\<close>) or a read or a write fails (then
  it returns that error). Which errors the network produces is not decided by the tunnel,
  so \<open>CFail\<close> may end a running copy with any error at any time; a chunk is only moved
  while neither connection has been closed. \<open>PeerSend\<close> and \<open>PeerClose\<close> are the steps
  of the peer at the other end of a connection.
\<close>

datatype sess_action =
    HStart | HSelect | HCloseRemote | HCloseAccepted | HWgDone
  | DStart | DRecv | DCloseCh | DWgDone
  | CChunk side nat | CEof side | CFail side go_error
  | CClassify side | CSend side | CWgDone side
  | PeerSend side "byte list" | PeerClose side

text \<open>
  One step of a session on the session, the counter of \<open>c.wg\<close> and the log. \<open>stop\<close>
  says whether a receive from \<open>c.done\<close> is ready. \<open>None\<close>: the step is not enabled
  (the goroutine is elsewhere, or blocked); \<open>Inl\<close>: the step panics. The steps and the
  statements they stand for:
  \<^item> \<open>HStart\<close>: \<open>handleConn\<close> up to its select (the log line, \<open>ch := make(chan struct{})\<close>,
    \<open>c.wg.Add(1)\<close>, \<open>go c.duplexCopy(accepted, remote, ch)\<close>);
  \<^item> \<open>HSelect\<close>: \<open>select { case <-c.done: case <-ch: }\<close>;
  \<^item> \<open>HCloseRemote\<close>, \<open>HCloseAccepted\<close>, \<open>HWgDone\<close>: the deferred calls of
    \<open>handleConn\<close>, last deferred first (\<open>remote.Close()\<close>, \<open>accepted.Close()\<close>,
    \<open>c.wg.Done()\<close>);
  \<^item> \<open>DStart\<close>: \<open>copyDone := make(chan struct{}, 2)\<close>, \<open>c.wg.Add(2)\<close> and the two
    \<open>go c.connCopy\<close>; \<open>DRecv\<close>: \<open><-copyDone\<close>; \<open>DCloseCh\<close>, \<open>DWgDone\<close>: the
    deferred \<open>close(ch)\<close> and \<open>c.wg.Done()\<close> of \<open>duplexCopy\<close>;
  \<^item> \<open>CChunk\<close>, \<open>CEof\<close>, \<open>CFail\<close>: \<open>io.Copy(dst, src)\<close>; \<open>CClassify\<close>: the
    \<open>if err != nil\<close> block of \<open>connCopy\<close>; \<open>CSend\<close>, \<open>CWgDone\<close>: its deferred
    \<open>copyDone <- struct{}{}\<close> and \<open>c.wg.Done()\<close>.
\<close>

fun sess_step ::
  "bool \<Rightarrow> sess_action \<Rightarrow> session \<times> int \<times> log_entry list \<Rightarrow>
     (panic + session \<times> int \<times> log_entry list) option" where
  "sess_step stop HStart (ss, w, l) =
     (if hpc ss = H_start
      then Some (Inr (ss\<lparr>hpc := H_select, ch := make_chan 0, dpc := D_start\<rparr>, w + 1,
             l @ [(InfoLevel, ''tunneling connection from %s to %s'',
                   [AStr (remoteAddr (conn_of ss Accepted)), AStr (remoteAddr (conn_of ss Remote))])]))
      else None)"
| "sess_step stop HSelect (ss, w, l) =
     (if hpc ss = H_select \<and> stop then Some (Inr (ss\<lparr>hpc := H_close_remote\<rparr>, w, l))
      else if hpc ss = H_select \<and> recv_ready (ch ss)
      then Some (Inr (ss\<lparr>hpc := H_close_remote, ch := chan_recv (ch ss)\<rparr>, w, l))
      else None)"
| "sess_step stop HCloseRemote (ss, w, l) =
     (if hpc ss = H_close_remote
      then Some (Inr (ss\<lparr>hpc := H_close_accepted,
                        conn_of := (conn_of ss)(Remote := conn_Close (conn_of ss Remote))\<rparr>, w, l))
      else None)"
| "sess_step stop HCloseAccepted (ss, w, l) =
     (if hpc ss = H_close_accepted
      then Some (Inr (ss\<lparr>hpc := H_wgdone,
                        conn_of := (conn_of ss)(Accepted := conn_Close (conn_of ss Accepted))\<rparr>, w, l))
      else None)"
| "sess_step stop HWgDone (ss, w, l) =
     (if hpc ss = H_wgdone
      then Some (case wg_Done w of Inl p \<Rightarrow> Inl p | Inr w' \<Rightarrow> Inr (ss\<lparr>hpc := H_finished\<rparr>, w', l))
      else None)"
| "sess_step stop DStart (ss, w, l) =
     (if dpc ss = D_start
      then Some (Inr (ss\<lparr>dpc := D_recv, copyDone := make_chan 2, cpc := (\<lambda>d. C_copying)\<rparr>, w + 2, l))
      else None)"
| "sess_step stop DRecv (ss, w, l) =
     (if dpc ss = D_recv \<and> recv_ready (copyDone ss)
      then Some (Inr (ss\<lparr>dpc := D_close_ch, copyDone := chan_recv (copyDone ss)\<rparr>, w, l))
      else None)"
| "sess_step stop DCloseCh (ss, w, l) =
     (if dpc ss = D_close_ch
      then Some (case chan_close (ch ss) of
                   Inl p \<Rightarrow> Inl p
                 | Inr c' \<Rightarrow> Inr (ss\<lparr>dpc := D_wgdone, ch := c'\<rparr>, w, l))
      else None)"
| "sess_step stop DWgDone (ss, w, l) =
     (if dpc ss = D_wgdone
      then Some (case wg_Done w of Inl p \<Rightarrow> Inl p | Inr w' \<Rightarrow> Inr (ss\<lparr>dpc := D_finished\<rparr>, w', l))
      else None)"
| "sess_step stop (CChunk d n) (ss, w, l) =
     (if cpc ss d = C_copying \<and> nclose (conn_of ss d) = 0 \<and> nclose (conn_of ss (other d)) = 0
         \<and> 0 < n \<and> n \<le> length (inbuf (conn_of ss d))
      then Some (Inr (ss\<lparr>conn_of := (conn_of ss)
                          (d := (conn_of ss d)\<lparr>inbuf := drop n (inbuf (conn_of ss d))\<rparr>,
                           other d := (conn_of ss (other d))
                              \<lparr>outbuf := outbuf (conn_of ss (other d)) @ take n (inbuf (conn_of ss d))\<rparr>)\<rparr>,
                      w, l))
      else None)"
| "sess_step stop (CEof d) (ss, w, l) =
     (if cpc ss d = C_copying \<and> nclose (conn_of ss d) = 0 \<and> inbuf (conn_of ss d) = []
         \<and> peer_eof (conn_of ss d)
      then Some (Inr (ss\<lparr>cpc := (cpc ss)(d := C_returned None),
                        io_result := (io_result ss)(d := Some None)\<rparr>, w, l))
      else None)"
| "sess_step stop (CFail d e) (ss, w, l) =
     (if cpc ss d = C_copying
      then Some (Inr (ss\<lparr>cpc := (cpc ss)(d := C_returned (Some e)),
                        io_result := (io_result ss)(d := Some (Some e))\<rparr>, w, l))
      else None)"
| "sess_step stop (CClassify d) (ss, w, l) =
     (case cpc ss d of
        C_returned err \<Rightarrow>
          Some (Inr (ss\<lparr>cpc := (cpc ss)(d := C_send)\<rparr>, w,
                     l @ connCopy_report err (remoteAddr (conn_of ss d))
                           (remoteAddr (conn_of ss (other d)))))
      | _ \<Rightarrow> None)"
| "sess_step stop (CSend d) (ss, w, l) =
     (if cpc ss d = C_send
      then (case chan_send () (copyDone ss) of
              None \<Rightarrow> None
            | Some (Inl p) \<Rightarrow> Some (Inl p)
            | Some (Inr c') \<Rightarrow> Some (Inr (ss\<lparr>cpc := (cpc ss)(d := C_wgdone), copyDone := c'\<rparr>, w, l)))
      else None)"
| "sess_step stop (CWgDone d) (ss, w, l) =
     (if cpc ss d = C_wgdone
      then Some (case wg_Done w of
                   Inl p \<Rightarrow> Inl p
                 | Inr w' \<Rightarrow> Inr (ss\<lparr>cpc := (cpc ss)(d := C_finished)\<rparr>, w', l))
      else None)"
| "sess_step stop (PeerSend d bs) (ss, w, l) =
     (if nclose (conn_of ss d) = 0 \<and> \<not> peer_eof (conn_of ss d)
      then Some (Inr (ss\<lparr>conn_of := (conn_of ss)
                          (d := (conn_of ss d)\<lparr>inbuf := inbuf (conn_of ss d) @ bs,
                                               peer_sent := peer_sent (conn_of ss d) @ bs\<rparr>)\<rparr>, w, l))
      else None)"
| "sess_step stop (PeerClose d) (ss, w, l) =
     (if \<not> peer_eof (conn_of ss d)
      then Some (Inr (ss\<lparr>conn_of := (conn_of ss)(d := (conn_of ss d)\<lparr>peer_eof := True\<rparr>)\<rparr>, w, l))
      else None)"

section \<open>The process: Run, serve and the sessions\<close>

text \<open>
  What the libraries answer is not decided by the tunnel, so it is a parameter:
  \<open>url.Parse\<close>, \<open>net.Listen\<close> and \<open>proxy.FromURL\<close> are the functions of an
  environment, and the results of \<open>Accept\<close>, \<open>Dial\<close> and \<open>listener.Close\<close> come with
  the step that makes the call.
\<close>

datatype url = URL (scheme: string) (rest: string)

datatype dialer = Direct | Proxied url dialer

record env =
  url_Parse :: "string \<Rightarrow> go_error + url"
  net_Listen :: "string \<Rightarrow> go_error option"
  proxy_FromURL :: "url \<Rightarrow> dialer \<Rightarrow> go_error + dialer"

datatype proc_status = Running | Exited nat | Panicked panic

datatype run_pc =
    R_start | R_select | R_shutdown | R_close_listener | R_spawn_waiter | R_wait | R_recv_err
  | R_returned "go_error option"

datatype serve_pc = S_idle | S_accept

datatype waiter_pc = W_idle | W_wait | W_finished

datatype listener_state = L_none | L_open | L_closed

text \<open>
  The state of the process: the client, the program counters of \<open>Run\<close>, of \<open>serve\<close>
  and of the goroutine that waits for \<open>c.wg\<close>, the local \<open>ch\<close> of \<open>Run\<close>, the
  listener, the dialer, the sessions in the order \<open>serve\<close> started them, the accepted
  connections that \<open>serve\<close> closed after a failed dial, and the log.
\<close>

record state =
  cl :: client
  status :: proc_status
  rpc :: run_pc
  spc :: serve_pc
  wpc :: waiter_pc
  wait_ch :: "unit chan"
  listener :: listener_state
  the_dialer :: "dialer option"
  sessions :: "session list"
  refused :: "conn list"
  logs :: "log_entry list"

definition init_state :: "client \<Rightarrow> state" where
  "init_state c =
     \<lparr>cl = c, status = Running, rpc = R_start, spc = S_idle, wpc = W_idle,
      wait_ch = make_chan 0, listener = L_none, the_dialer = None, sessions = [],
      refused = [], logs = []\<rparr>"

text \<open>\<open>main\<close> makes the signal channel with capacity 1 and calls \<open>newClient\<close>.\<close>

definition main_state :: "string \<Rightarrow> string \<Rightarrow> string \<Rightarrow> duration \<Rightarrow> duration \<Rightarrow> state" where
  "main_state la ta pa dt ka = init_state (newClient la ta pa dt ka (make_chan 1))"

definition logf :: "level \<Rightarrow> string \<Rightarrow> arg list \<Rightarrow> state \<Rightarrow> state" where
  "logf lv fmt args s = s\<lparr>logs := logs s @ [(lv, fmt, args)]\<rparr>"

definition Fatalf :: "string \<Rightarrow> arg list \<Rightarrow> state \<Rightarrow> state" where
  "Fatalf fmt args s = (logf FatalLevel fmt args s)\<lparr>status := Exited 1\<rparr>"

text \<open>\<open>go c.serve(listener, dialer)\<close>, after which \<open>Run\<close> stands at its first select.\<close>

definition go_serve :: "dialer \<Rightarrow> state \<Rightarrow> state" where
  "go_serve d s = s\<lparr>the_dialer := Some d, spc := S_accept, rpc := R_select\<rparr>"

text \<open>
  \<open>Run\<close> up to \<open>go c.serve(listener, dialer)\<close>, in the order of the source: parse the
  proxy URL when one is configured, open the listener, then build the dialer.
\<close>

definition Run_start :: "env \<Rightarrow> state \<Rightarrow> state" where
  "Run_start ev s =
     (case (if proxyAddress (cl s) \<noteq> []
            then (case url_Parse ev (proxyAddress (cl s)) of Inl e \<Rightarrow> Inl e | Inr u \<Rightarrow> Inr (Some u))
            else Inr None) of
        Inl e \<Rightarrow> Fatalf ''could not parse proxy URL: %s'' [AErr e] s
      | Inr proxyURL \<Rightarrow>
          (case net_Listen ev (listenAddress (cl s)) of
             Some e \<Rightarrow> Fatalf ''could not start listening: %s'' [AErr e] s
           | None \<Rightarrow>
               (let s1 = logf InfoLevel ''Listening port opened on %s''
                           [AStr (listenAddress (cl s))] (s\<lparr>listener := L_open\<rparr>)
                in case proxyURL of
                     None \<Rightarrow> go_serve Direct s1
                   | Some u \<Rightarrow>
                       (case proxy_FromURL ev u Direct of
                          Inl e \<Rightarrow> Fatalf ''could not construct proxy: %s'' [AErr e] s1
                        | Inr d \<Rightarrow> go_serve d s1))))"

text \<open>
  One turn of the accept loop of \<open>serve\<close>, given what \<open>listener.Accept()\<close> returns and,
  when it is reached, what \<open>dialer.Dial\<close> returns (a connection is given by its remote
  and local addresses).
\<close>

definition serve_iter ::
  "go_error + string \<times> string \<Rightarrow> go_error + string \<times> string \<Rightarrow> state \<Rightarrow> state" where
  "serve_iter acc dial s =
     (case acc of
        Inl e \<Rightarrow> Fatalf ''error accepting connection: %s'' [AErr e] s
      | Inr a \<Rightarrow>
          (let s1 = logf InfoLevel ''accepted connection from %s on %s'' [AStr (fst a), AStr (snd a)] s
           in case dial of
                Inl e \<Rightarrow>
                  (logf ErrorLevel ''error dialing remote target: %s'' [AErr e] s1)
                    \<lparr>refused := refused s1 @ [conn_Close (new_conn a)]\<rparr>
              | Inr r \<Rightarrow>
                  s1\<lparr>cl := (cl s1)\<lparr>wg := wg (cl s1) + 1\<rparr>,
                     sessions := sessions s1 @ [new_session a r]\<rparr>))"

text \<open>
  The steps of the process. \<open>Signal\<close> is the runtime delivering a signal to the channel
  given to \<open>signal.Notify\<close> (dropped when the buffer is full). \<open>RunTimeout\<close> is the
  timer of \<open>time.After\<close> firing: time is not modelled, so the timer may fire at any
  moment of the wait. \<open>Accept\<close> on a listener that is not open can only return an
  error. The steps of \<open>Run\<close> and the statements they stand for:
  \<^item> \<open>RunStart\<close>: \<open>Run\<close> up to \<open>go c.serve(listener, dialer)\<close>;
  \<^item> \<open>RunSelectSignal\<close>, \<open>RunSelectDone\<close>: the two cases of
    \<open>select { case <-c.signal: ...; case <-c.done: }\<close>;
  \<^item> \<open>RunShutdown\<close>: \<open>c.shutdown()\<close>; \<open>RunCloseListener\<close>: the log line and
    \<open>listener.Close()\<close>, with the error it returns;
  \<^item> \<open>RunSpawnWaiter\<close>: \<open>ch := make(chan struct{})\<close> and the \<open>go func\<close>;
    \<open>WaiterDone\<close>: that goroutine, \<open>c.wg.Wait()\<close> followed by the deferred \<open>close(ch)\<close>;
  \<^item> \<open>RunWaitDone\<close>, \<open>RunTimeout\<close>: the two cases of the second select;
  \<^item> \<open>RunRecvErr\<close>: \<open>return <-c.errChan\<close>.
  \<open>Accept\<close> is one turn of the loop of \<open>serve\<close>, and \<open>Sess i a\<close> is the step \<open>a\<close>
  of the session with index \<open>i\<close>.
\<close>

datatype action =
    RunStart
  | Signal os_signal
  | RunSelectSignal | RunSelectDone
  | RunShutdown
  | RunCloseListener "go_error option"
  | RunSpawnWaiter
  | WaiterDone
  | RunWaitDone | RunTimeout
  | RunRecvErr
  | Accept "go_error + string \<times> string" "go_error + string \<times> string"
  | Sess nat sess_action

fun step_running :: "env \<Rightarrow> action \<Rightarrow> state \<Rightarrow> state option" where
  "step_running ev RunStart s = (if rpc s = R_start then Some (Run_start ev s) else None)"
| "step_running ev (Signal sg) s =
     Some (s\<lparr>cl := (cl s)\<lparr>signal :=
              (if length (buf (signal (cl s))) < cap (signal (cl s))
               then (signal (cl s))\<lparr>buf := buf (signal (cl s)) @ [sg]\<rparr>
               else signal (cl s))\<rparr>\<rparr>)"
| "step_running ev RunSelectSignal s =
     (if rpc s = R_select \<and> recv_ready (signal (cl s))
      then Some ((logf InfoLevel ''received shutdown signal from user'' [] s)
                   \<lparr>cl := (cl s)\<lparr>signal := chan_recv (signal (cl s))\<rparr>, rpc := R_shutdown\<rparr>)
      else None)"
| "step_running ev RunSelectDone s =
     (if rpc s = R_select \<and> recv_ready (done_ch (cl s))
      then Some (s\<lparr>cl := (cl s)\<lparr>done_ch := chan_recv (done_ch (cl s))\<rparr>, rpc := R_shutdown\<rparr>)
      else None)"
| "step_running ev RunShutdown s =
     (if rpc s = R_shutdown
      then Some (case shutdown (cl s) of
                   Inl p \<Rightarrow> s\<lparr>status := Panicked p\<rparr>
                 | Inr c' \<Rightarrow> s\<lparr>cl := c', rpc := R_close_listener\<rparr>)
      else None)"
| "step_running ev (RunCloseListener cerr) s =
     (if rpc s = R_close_listener
      then Some (let s1 = (logf InfoLevel ''stopping proxy client: %s''
                             [AStr (listenAddress (cl s))] s)\<lparr>listener := L_closed\<rparr>
                 in (case cerr of
                       None \<Rightarrow> s1
                     | Some e \<Rightarrow> logf ErrorLevel ''failed to close listener: %s'' [AErr e] s1)
                    \<lparr>rpc := R_spawn_waiter\<rparr>)
      else None)"
| "step_running ev RunSpawnWaiter s =
     (if rpc s = R_spawn_waiter
      then Some (s\<lparr>wait_ch := make_chan 0, wpc := W_wait, rpc := R_wait\<rparr>)
      else None)"
| "step_running ev WaiterDone s =
     (if wpc s = W_wait \<and> wg (cl s) = 0
      then Some (case chan_close (wait_ch s) of
                   Inl p \<Rightarrow> s\<lparr>status := Panicked p\<rparr>
                 | Inr c' \<Rightarrow> s\<lparr>wait_ch := c', wpc := W_finished\<rparr>)
      else None)"
| "step_running ev RunWaitDone s =
     (if rpc s = R_wait \<and> recv_ready (wait_ch s)
      then Some (s\<lparr>wait_ch := chan_recv (wait_ch s), rpc := R_recv_err\<rparr>)
      else None)"
| "step_running ev RunTimeout s =
     (if rpc s = R_wait
      then Some ((logf WarnLevel ''some goroutines will be stopped forcefully'' [] s)
                   \<lparr>rpc := R_recv_err\<rparr>)
      else None)"
| "step_running ev RunRecvErr s =
     (if rpc s = R_recv_err \<and> recv_ready (errChan (cl s))
      then Some (s\<lparr>cl := (cl s)\<lparr>errChan := chan_recv (errChan (cl s))\<rparr>,
                   rpc := R_returned (case buf (errChan (cl s)) of [] \<Rightarrow> None | e # es \<Rightarrow> Some e)\<rparr>)
      else None)"
| "step_running ev (Accept acc dial) s =
     (if spc s = S_accept \<and> (listener s = L_open \<or> isl acc)
      then Some (serve_iter acc dial s)
      else None)"
| "step_running ev (Sess i a) s =
     (if i < length (sessions s)
      then (case sess_step (recv_ready (done_ch (cl s))) a (sessions s ! i, wg (cl s), logs s) of
              None \<Rightarrow> None
            | Some (Inl p) \<Rightarrow> Some (s\<lparr>status := Panicked p\<rparr>)
            | Some (Inr (ss', w', l')) \<Rightarrow>
                Some (s\<lparr>sessions := (sessions s)[i := ss'], cl := (cl s)\<lparr>wg := w'\<rparr>, logs := l'\<rparr>))
      else None)"

text \<open>Once the process has exited or panicked, nothing runs any more.\<close>

definition step :: "env \<Rightarrow> action \<Rightarrow> state \<Rightarrow> state option" where
  "step ev a s = (if status s = Running then step_running ev a s else None)"

fun exec :: "env \<Rightarrow> action list \<Rightarrow> state \<Rightarrow> state option" where
  "exec ev [] s = Some s"
| "exec ev (a # as) s = (case step ev a s of None \<Rightarrow> None | Some s' \<Rightarrow> exec ev as s')"

section \<open>What holds in every state of a session\<close>

text \<open>
  A task holds one increment of \<open>c.wg\<close> from the \<open>wg.Add\<close> made for it until its
  own \<open>wg.Done()\<close>: \<open>serve\<close> adds 1 before \<open>go c.handleConn\<close>, \<open>handleConn\<close> adds 1
  before \<open>go c.duplexCopy\<close>, \<open>duplexCopy\<close> adds 2 before the two \<open>go c.connCopy\<close>.
\<close>

fun h_live :: "handler_pc \<Rightarrow> int" where
  "h_live H_finished = 0"
| "h_live p = 1"

fun d_live :: "duplex_pc \<Rightarrow> int" where
  "d_live D_idle = 0"
| "d_live D_finished = 0"
| "d_live p = 1"

fun c_live :: "copy_pc \<Rightarrow> int" where
  "c_live C_idle = 0"
| "c_live C_finished = 0"
| "c_live p = 1"

definition live :: "session \<Rightarrow> int" where
  "live ss = h_live (hpc ss) + d_live (dpc ss) + c_live (cpc ss Accepted) + c_live (cpc ss Remote)"

text \<open>A copy task that has been started and has not yet sent on \<open>copyDone\<close>.\<close>

fun c_pending :: "copy_pc \<Rightarrow> nat" where
  "c_pending C_copying = 1"
| "c_pending (C_returned e) = 1"
| "c_pending C_send = 1"
| "c_pending p = 0"

text \<open>\<open>duplexCopy\<close> has received its one element from \<open>copyDone\<close>.\<close>

fun d_taken :: "duplex_pc \<Rightarrow> nat" where
  "d_taken D_close_ch = 1"
| "d_taken D_wgdone = 1"
| "d_taken D_finished = 1"
| "d_taken p = 0"

text \<open>
  The calls of \<open>remote.Close()\<close> and of \<open>accepted.Close()\<close> that \<open>handleConn\<close>
  has made when it stands at a given program counter.
\<close>

fun h_closed_remote :: "handler_pc \<Rightarrow> nat" where
  "h_closed_remote H_close_accepted = 1"
| "h_closed_remote H_wgdone = 1"
| "h_closed_remote H_finished = 1"
| "h_closed_remote p = 0"

fun h_closed_accepted :: "handler_pc \<Rightarrow> nat" where
  "h_closed_accepted H_wgdone = 1"
| "h_closed_accepted H_finished = 1"
| "h_closed_accepted p = 0"

text \<open>The goroutines of a session exist in the order in which they are started.\<close>

definition inv_pc :: "session \<Rightarrow> bool" where
  "inv_pc ss =
     ((hpc ss = H_start) = (dpc ss = D_idle) \<and>
      (cpc ss Accepted = C_idle) = (dpc ss = D_idle \<or> dpc ss = D_start) \<and>
      (cpc ss Remote = C_idle) = (dpc ss = D_idle \<or> dpc ss = D_start))"

text \<open>
  \<open>copyDone\<close> has capacity 2 and is never closed, and the elements in its buffer, the
  copy tasks that have still to send and the element \<open>duplexCopy\<close> has taken are 2
  together.
\<close>

definition inv_tokens :: "session \<Rightarrow> bool" where
  "inv_tokens ss =
     (dpc ss = D_idle \<or> dpc ss = D_start \<or>
      (cap (copyDone ss) = 2 \<and> \<not> is_closed (copyDone ss) \<and>
       length (buf (copyDone ss)) + c_pending (cpc ss Accepted) + c_pending (cpc ss Remote)
         + d_taken (dpc ss) = 2))"

text \<open>\<open>ch\<close> is empty, and closed exactly once \<open>duplexCopy\<close> has run its \<open>close(ch)\<close>.\<close>

definition inv_ch :: "session \<Rightarrow> bool" where
  "inv_ch ss =
     (buf (ch ss) = [] \<and> is_closed (ch ss) = (dpc ss = D_wgdone \<or> dpc ss = D_finished))"

text \<open>The calls of \<open>Close\<close> on the two connections are those \<open>handleConn\<close> has made.\<close>

definition inv_close :: "session \<Rightarrow> bool" where
  "inv_close ss =
     (nclose (conn_of ss Remote) = h_closed_remote (hpc ss) \<and>
      nclose (conn_of ss Accepted) = h_closed_accepted (hpc ss))"

text \<open>
  The bytes written to one connection against the bytes that arrived on the other, for
  the copy task that reads from side \<open>d\<close>.
\<close>

definition inv_bytes :: "session \<Rightarrow> side \<Rightarrow> bool" where
  "inv_bytes ss d =
     (prefix (outbuf (conn_of ss (other d))) (peer_sent (conn_of ss d)) \<and>
      (io_result ss d = None) = (cpc ss d = C_idle \<or> cpc ss d = C_copying) \<and>
      (io_result ss d \<noteq> None \<or>
         peer_sent (conn_of ss d) = outbuf (conn_of ss (other d)) @ inbuf (conn_of ss d)) \<and>
      (io_result ss d \<noteq> Some None \<or>
         (outbuf (conn_of ss (other d)) = peer_sent (conn_of ss d) \<and> peer_eof (conn_of ss d))))"

definition sess_inv :: "session \<Rightarrow> bool" where
  "sess_inv ss =
     (inv_pc ss \<and> inv_tokens ss \<and> inv_ch ss \<and> inv_close ss \<and>
      inv_bytes ss Accepted \<and> inv_bytes ss Remote)"

section \<open>What holds in every state of the process\<close>

definition proc_inv :: "state \<Rightarrow> bool" where
  "proc_inv s =
     (wg (cl s) = sum_list (map live (sessions s)) \<and>
      list_all sess_inv (sessions s) \<and>
      errChan (cl s) = make_chan 1 \<and>
      buf (done_ch (cl s)) = [] \<and>
      (wpc s \<noteq> W_wait \<or> \<not> is_closed (wait_ch s)) \<and>
      (case status s of Panicked p \<Rightarrow> False | _ \<Rightarrow> True) \<and>
      (case rpc s of R_returned e \<Rightarrow> False | _ \<Rightarrow> True))"

text \<open>The log when the session of the example runs has been started.\<close>

definition demo_log :: "log_entry list" where
  "demo_log =
     [(InfoLevel, ''Listening port opened on %s'', [AStr '':8080'']),
      (InfoLevel, ''accepted connection from %s on %s'',
       [AStr ''198.51.100.7:40000'', AStr ''192.0.2.1:8080'']),
      (InfoLevel, ''tunneling connection from %s to %s'',
       [AStr ''198.51.100.7:40000'', AStr ''10.0.0.1:80''])]"

text \<open>
  What the statements about the example runs read off a state: of a connection its
  remote address, the calls of \<open>Close\<close>, the bytes the peer has sent, the bytes not
  yet read and the bytes written; of a session its program counters, the results of the
  two \<open>io.Copy\<close>, its connections, whether \<open>ch\<close> is closed and how many elements
  \<open>copyDone\<close> holds; of the process its status, the program counter of \<open>Run\<close>, the
  counter of \<open>c.wg\<close>, whether \<open>c.done\<close> is closed, the log and the sessions.
\<close>

type_synonym conn_view = "string \<times> nat \<times> byte list \<times> byte list \<times> byte list"

type_synonym session_view =
  "(handler_pc \<times> duplex_pc \<times> copy_pc \<times> copy_pc) \<times>
   (go_error option option \<times> go_error option option) \<times> conn_view \<times> conn_view \<times> bool \<times> nat"

definition view_conn :: "conn \<Rightarrow> conn_view" where
  "view_conn k = (remoteAddr k, nclose k, peer_sent k, inbuf k, outbuf k)"

definition view_session :: "session \<Rightarrow> session_view" where
  "view_session ss =
     ((hpc ss, dpc ss, cpc ss Accepted, cpc ss Remote),
      (io_result ss Accepted, io_result ss Remote),
      view_conn (conn_of ss Accepted), view_conn (conn_of ss Remote),
      is_closed (ch ss), length (buf (copyDone ss)))"

definition view ::
  "state \<Rightarrow> (proc_status \<times> run_pc \<times> int \<times> bool) \<times> log_entry list \<times> session_view list" where
  "view s =
     ((status s, rpc s, wg (cl s), is_closed (done_ch (cl s))), logs s,
      map view_session (sessions s))"

text \<open>The side a step of a copy task or of a peer is about (\<open>Accepted\<close> for the others).\<close>

fun act_side :: "sess_action \<Rightarrow> side" where
  "act_side (CChunk d n) = d"
| "act_side (CEof d) = d"
| "act_side (CFail d e) = d"
| "act_side (CClassify d) = d"
| "act_side (CSend d) = d"
| "act_side (CWgDone d) = d"
| "act_side (PeerSend d bs) = d"
| "act_side (PeerClose d) = d"
| "act_side a = Accepted"

section \<open>Example runs\<close>

text \<open>
  An environment in which \<open>url.Parse\<close> accepts two proxy addresses and rejects every
  other string, every listen succeeds, and \<open>proxy.FromURL\<close> knows the scheme
  \<open>socks5\<close> only; and the state \<open>main\<close> starts from for a given \<open>-proxy\<close> value.
\<close>

definition demo_env :: env where
  "demo_env =
     \<lparr>url_Parse = (\<lambda>a. if a = ''socks5://127.0.0.1:1080/'' then Inr (URL ''socks5'' ''127.0.0.1:1080'')
                        else if a = ''foo://127.0.0.1:1080/'' then Inr (URL ''foo'' ''127.0.0.1:1080'')
                        else Inl (OtherError ''parse: missing protocol scheme'')),
      net_Listen = (\<lambda>a. None),
      proxy_FromURL = (\<lambda>u d. if scheme u = ''socks5'' then Inr (Proxied u d)
                              else Inl (OtherError ''proxy: unknown scheme''))\<rparr>"

definition demo_state :: "string \<Rightarrow> state" where
  "demo_state pa = main_state '':8080'' ''10.0.0.1:80'' pa 10 30"

text \<open>
  A run in which the interrupt signal arrives while no session is active, followed to the
  last statement of \<open>Run\<close>; and a run in which the first \<open>Accept\<close> fails.
\<close>

definition run_signal :: "action list" where
  "run_signal =
     [RunStart, Signal Interrupt, RunSelectSignal, RunShutdown, RunCloseListener None,
      RunSpawnWaiter, WaiterDone, RunWaitDone]"

definition st_signal :: state where
  "st_signal = the (exec demo_env run_signal (demo_state []))"

definition run_accept_error :: "action list" where
  "run_accept_error =
     [RunStart,
      Accept (Inl (OtherError ''accept tcp: too many open files'')) (Inl (OtherError ''not reached''))]"

definition st_accept_error :: state where
  "st_accept_error = the (exec demo_env run_accept_error (demo_state []))"

text \<open>
  A session in which the client sends three bytes and closes its sending half while two
  bytes of the answer have arrived from the target and have not been copied yet:
  \<open>run_first_sent\<close> ends when the copy task of the client side has sent on
  \<open>copyDone\<close>, \<open>run_first_done\<close> when \<open>duplexCopy\<close> has closed \<open>ch\<close>,
  \<open>run_half_close\<close> when \<open>handleConn\<close> has returned, \<open>run_copy_failed\<close> when the
  read of the other copy task has failed on the closed connection, \<open>run_second_send\<close>
  when that task stands at its deferred send, and \<open>run_session_end\<close> when every
  goroutine of the session has returned. In \<open>run_write_failed\<close> a write of a copy
  task fails while the session is running.
\<close>

definition run_first_sent :: "action list" where
  "run_first_sent =
     [RunStart,
      Accept (Inr (''198.51.100.7:40000'', ''192.0.2.1:8080'')) (Inr (''10.0.0.1:80'', ''192.0.2.1:50000'')),
      Sess 0 HStart, Sess 0 DStart,
      Sess 0 (PeerSend Accepted [1, 2, 3]), Sess 0 (CChunk Accepted 3),
      Sess 0 (PeerSend Remote [4, 5]),
      Sess 0 (PeerClose Accepted), Sess 0 (CEof Accepted), Sess 0 (CClassify Accepted),
      Sess 0 (CSend Accepted)]"

definition run_first_done :: "action list" where
  "run_first_done = run_first_sent @ [Sess 0 DRecv, Sess 0 DCloseCh]"

definition run_half_close :: "action list" where
  "run_half_close =
     run_first_done @ [Sess 0 HSelect, Sess 0 HCloseRemote, Sess 0 HCloseAccepted, Sess 0 HWgDone]"

definition run_copy_failed :: "action list" where
  "run_copy_failed =
     run_half_close @ [Sess 0 (CFail Remote (OpError ''read'' ''use of closed network connection''))]"

definition run_second_send :: "action list" where
  "run_second_send = run_copy_failed @ [Sess 0 (CClassify Remote)]"

definition run_session_end :: "action list" where
  "run_session_end =
     run_second_send @
     [Sess 0 (CSend Remote), Sess 0 (CWgDone Remote), Sess 0 (CWgDone Accepted), Sess 0 DWgDone]"

definition run_write_failed :: "action list" where
  "run_write_failed =
     [RunStart,
      Accept (Inr (''198.51.100.7:40000'', ''192.0.2.1:8080'')) (Inr (''10.0.0.1:80'', ''192.0.2.1:50000'')),
      Sess 0 HStart, Sess 0 DStart,
      Sess 0 (PeerSend Accepted [1, 2, 3]),
      Sess 0 (CFail Accepted (OpError ''write'' ''broken pipe''))]"

text \<open>
  \<open>run_write_failed\<close> continued: the copy task logs its error and returns, then
  \<open>serve\<close> accepts a second connection, whose session starts.
\<close>

definition run_after_copy_error :: "action list" where
  "run_after_copy_error =
     run_write_failed @
     [Sess 0 (CClassify Accepted), Sess 0 (CSend Accepted), Sess 0 (CWgDone Accepted),
      Accept (Inr (''198.51.100.8:40001'', ''192.0.2.1:8080'')) (Inr (''10.0.0.1:80'', ''192.0.2.1:50001'')),
      Sess 1 HStart]"

definition st_first_sent :: state where
  "st_first_sent = the (exec demo_env run_first_sent (demo_state []))"


definition st_half_close :: state where
  "st_half_close = the (exec demo_env run_half_close (demo_state []))"

definition st_copy_failed :: state where
  "st_copy_failed = the (exec demo_env run_copy_failed (demo_state []))"

definition st_second_send :: state where
  "st_second_send = the (exec demo_env run_second_send (demo_state []))"

definition st_session_end :: state where
  "st_session_end = the (exec demo_env run_session_end (demo_state []))"


text \<open>
  A session that is stopped by the signal while both copy tasks are in \<open>io.Copy\<close>:
  \<open>run_stop\<close> ends when \<open>Run\<close> has closed \<open>c.done\<close>, \<open>run_stop_recv\<close> when
  \<open>handleConn\<close> has closed both connections, the read of one copy task has failed and
  \<open>duplexCopy\<close> has received, and \<open>run_stop_duplex\<close> when \<open>duplexCopy\<close> has
  closed \<open>ch\<close>; \<open>stop_log\<close> is the log of these runs.
\<close>

definition run_stop :: "action list" where
  "run_stop =
     [RunStart,
      Accept (Inr (''198.51.100.7:40000'', ''192.0.2.1:8080'')) (Inr (''10.0.0.1:80'', ''192.0.2.1:50000'')),
      Sess 0 HStart, Sess 0 DStart,
      Signal Interrupt, RunSelectSignal, RunShutdown]"

definition run_stop_recv :: "action list" where
  "run_stop_recv =
     run_stop @
     [Sess 0 HSelect, Sess 0 HCloseRemote, Sess 0 HCloseAccepted,
      Sess 0 (CFail Accepted (OpError ''read'' ''use of closed network connection'')),
      Sess 0 (CClassify Accepted), Sess 0 (CSend Accepted), Sess 0 DRecv]"

definition run_stop_duplex :: "action list" where
  "run_stop_duplex = run_stop_recv @ [Sess 0 DCloseCh]"

definition stop_log :: "log_entry list" where
  "stop_log = demo_log @ [(InfoLevel, ''received shutdown signal from user'', [])]"

definition st_stop :: state where
  "st_stop = the (exec demo_env run_stop (demo_state []))"

definition st_stop_recv :: state where
  "st_stop_recv = the (exec demo_env run_stop_recv (demo_state []))"

definition st_stop_duplex :: state where
  "st_stop_duplex = the (exec demo_env run_stop_duplex (demo_state []))"

section \<open>The steps of a session keep its invariants\<close>

lemmas chan_defs = make_chan_def recv_ready_def chan_recv_def chan_send_def chan_close_def wg_Done_def

lemma sess_step_inv_pc:
  "sess_step stop a (ss, w, l) = Some (Inr (ss', w', l')) \<Longrightarrow> inv_pc ss \<Longrightarrow> inv_pc ss'"
  by (cases a; cases "act_side a"; clarsimp split: if_splits copy_pc.splits sum.splits option.splits simp: chan_defs inv_pc_def)

lemma sess_step_inv_ch:
  "sess_step stop a (ss, w, l) = Some (Inr (ss', w', l')) \<Longrightarrow> inv_pc ss \<Longrightarrow> inv_ch ss \<Longrightarrow> inv_ch ss'"
  by (cases a; cases "act_side a"; clarsimp split: if_splits copy_pc.splits sum.splits option.splits simp: chan_defs inv_pc_def inv_ch_def)

lemma sess_step_inv_close:
  "sess_step stop a (ss, w, l) = Some (Inr (ss', w', l')) \<Longrightarrow> inv_close ss \<Longrightarrow> inv_close ss'"
  by (cases a; cases "act_side a"; clarsimp split: if_splits copy_pc.splits sum.splits option.splits simp: chan_defs inv_close_def conn_Close_def)

lemma sess_step_live:
  "sess_step stop a (ss, w, l) = Some (Inr (ss', w', l')) \<Longrightarrow> inv_pc ss \<Longrightarrow> w' - live ss' = w - live ss"
  by (cases a; cases "act_side a"; clarsimp split: if_splits copy_pc.splits sum.splits option.splits simp: chan_defs inv_pc_def live_def)


lemma sess_step_inv_tokens:
  "sess_step stop a (ss, w, l) = Some (Inr (ss', w', l')) \<Longrightarrow> inv_pc ss \<Longrightarrow> inv_tokens ss \<Longrightarrow> inv_tokens ss'"
  by (cases a; cases "act_side a"; cases "buf (copyDone ss)";
      clarsimp split: if_splits copy_pc.splits sum.splits option.splits simp: chan_defs inv_pc_def inv_tokens_def)

lemma sess_step_inv_bytes:
  "sess_step stop a (ss, w, l) = Some (Inr (ss', w', l')) \<Longrightarrow> inv_pc ss \<Longrightarrow> inv_bytes ss d \<Longrightarrow> inv_bytes ss' d"
  by (cases a; cases "act_side a"; cases d; clarsimp split: if_splits copy_pc.splits sum.splits option.splits simp: chan_defs inv_pc_def inv_bytes_def conn_Close_def take_is_prefix)

lemma h_live_nonneg: "0 \<le> h_live p"
  by (cases p) simp_all

lemma d_live_nonneg: "0 \<le> d_live p"
  by (cases p) simp_all

lemma c_live_nonneg: "0 \<le> c_live p"
  by (cases p) simp_all

lemma live_nonneg: "0 \<le> live ss"
  using h_live_nonneg [of "hpc ss"] d_live_nonneg [of "dpc ss"]
    c_live_nonneg [of "cpc ss Accepted"] c_live_nonneg [of "cpc ss Remote"]
  by (simp add: live_def)

lemma sess_step_no_panic:
  "inv_pc ss \<Longrightarrow> inv_tokens ss \<Longrightarrow> inv_ch ss \<Longrightarrow> live ss \<le> w \<Longrightarrow> sess_step stop a (ss, w, l) \<noteq> Some (Inl p)"
  using h_live_nonneg [of "hpc ss"] d_live_nonneg [of "dpc ss"]
    c_live_nonneg [of "cpc ss Accepted"] c_live_nonneg [of "cpc ss Remote"]
  by (cases a; cases "act_side a"; clarsimp split: if_splits copy_pc.splits sum.splits option.splits simp: chan_defs inv_pc_def inv_tokens_def inv_ch_def live_def)

lemma sess_step_sess_inv:
  assumes st: "sess_step stop a (ss, w, l) = Some (Inr (ss', w', l'))" and inv: "sess_inv ss"
  shows "sess_inv ss'"
  using inv sess_step_inv_pc [OF st] sess_step_inv_tokens [OF st] sess_step_inv_ch [OF st]
    sess_step_inv_close [OF st] sess_step_inv_bytes [OF st]
  by (simp add: sess_inv_def)

lemma new_session_inv: "sess_inv (new_session a r)"
  by (simp add: sess_inv_def inv_pc_def inv_tokens_def inv_ch_def inv_close_def inv_bytes_def
      new_session_def new_conn_def make_chan_def)

lemma new_session_live: "live (new_session a r) = 1"
  by (simp add: live_def new_session_def)



lemma sum_list_map_update:
  fixes f :: "'a \<Rightarrow> int"
  shows "i < length xs \<Longrightarrow> sum_list (map f (xs[i := y])) = sum_list (map f xs) - f (xs ! i) + f y"
proof (induction xs arbitrary: i)
  case Nil
  then show ?case by simp
next
  case (Cons x xs)
  then show ?case by (cases i) simp_all
qed

lemma sum_list_live_nonneg: "0 \<le> sum_list (map live xs)"
  by (induction xs) (simp_all add: live_nonneg)

lemma live_le_sum_list: "i < length xs \<Longrightarrow> live (xs ! i) \<le> sum_list (map live xs)"
proof (induction xs arbitrary: i)
  case Nil
  then show ?case by simp
next
  case (Cons x xs)
  show ?case
  proof (cases i)
    case 0
    then show ?thesis using sum_list_live_nonneg [of xs] by simp
  next
    case (Suc j)
    then show ?thesis using Cons.IH [of j] Cons.prems live_nonneg [of x] by simp
  qed
qed

lemma list_all_update_inv: "list_all P xs \<Longrightarrow> P y \<Longrightarrow> list_all P (xs[i := y])"
  using set_update_subset_insert [of xs i y] by (auto simp: list_all_iff)

lemma sess_proc_inv:
  assumes inv: "proc_inv s" and i: "i < length (sessions s)"
    and st: "step_running ev (Sess i a) s = Some s'"
  shows "proc_inv s'"
proof -
  let ?ss = "sessions s ! i"
  have si: "sess_inv ?ss" using inv i by (simp add: proc_inv_def list_all_length)
  have w: "wg (cl s) = sum_list (map live (sessions s))" using inv by (simp add: proc_inv_def)
  have le: "live ?ss \<le> wg (cl s)" using live_le_sum_list [OF i] w by simp
  obtain r where r: "sess_step (recv_ready (done_ch (cl s))) a (?ss, wg (cl s), logs s) = Some r"
    using st i by (auto split: option.splits)
  show ?thesis
  proof (cases r)
    case (Inl p)
    then show ?thesis
      using sess_step_no_panic [of ?ss "wg (cl s)" _ a "logs s" p] si le r
      by (simp add: sess_inv_def)
  next
    case (Inr t)
    obtain ss' w' l' where t: "t = (ss', w', l')" by (cases t)
    have r': "sess_step (recv_ready (done_ch (cl s))) a (?ss, wg (cl s), logs s) = Some (Inr (ss', w', l'))"
      using r Inr t by simp
    have s': "s' = s\<lparr>sessions := (sessions s)[i := ss'], cl := (cl s)\<lparr>wg := w'\<rparr>, logs := l'\<rparr>"
      using st i r' by simp
    have a1: "sess_inv ss'" using sess_step_sess_inv [OF r' si] .
    have a2: "w' - live ss' = wg (cl s) - live ?ss"
      using sess_step_live [OF r'] si by (simp add: sess_inv_def)
    show ?thesis
      using inv a1 a2 i
      by (simp add: s' proc_inv_def sum_list_map_update list_all_update_inv)
  qed
qed


lemma shutdown_result:
  "buf (done_ch c) = [] \<Longrightarrow> shutdown c = Inr (c\<lparr>done_ch := (done_ch c)\<lparr>is_closed := True\<rparr>\<rparr>)"
  by (simp add: shutdown_def chan_defs)

lemma other_proc_inv:
  assumes inv: "proc_inv s" and st: "step_running ev a s = Some s'" and a: "\<And>i b. a \<noteq> Sess i b"
  shows "proc_inv s'"
  using inv st a
  by (cases a)
    (auto simp: proc_inv_def Run_start_def serve_iter_def Fatalf_def logf_def go_serve_def
      shutdown_result chan_defs new_session_inv new_session_live Let_def
      split: if_splits sum.splits option.splits)

lemma step_proc_inv:
  assumes st: "step ev a s = Some s'" and inv: "proc_inv s"
  shows "proc_inv s'"
proof -
  have r: "step_running ev a s = Some s'"
    using st by (simp add: step_def split: if_splits)
  show ?thesis
  proof (cases "\<exists>i b. a = Sess i b")
    case True
    then obtain i b where a: "a = Sess i b" by blast
    have "i < length (sessions s)" using r a by (simp split: if_splits)
    then show ?thesis using sess_proc_inv [OF inv _ r [unfolded a]] by simp
  next
    case False
    then show ?thesis using other_proc_inv [OF inv r] by blast
  qed
qed

lemma exec_proc_inv: "exec ev as s = Some s' \<Longrightarrow> proc_inv s \<Longrightarrow> proc_inv s'"
  by (induction as arbitrary: s) (auto split: option.splits intro: step_proc_inv)

lemma main_state_inv: "proc_inv (main_state la ta pa dt ka)"
  by (simp add: main_state_def init_state_def newClient_def proc_inv_def make_chan_def)


section \<open>Reachable states\<close>

lemma reach_inv: "exec ev acts (main_state la ta pa dt ka) = Some s \<Longrightarrow> proc_inv s"
  using exec_proc_inv main_state_inv by blast

lemma proc_inv_sess: "proc_inv s \<Longrightarrow> i < length (sessions s) \<Longrightarrow> sess_inv (sessions s ! i)"
  by (simp add: proc_inv_def list_all_length)

lemma step_sess_lift:
  assumes "status s = Running" and "i < length (sessions s)"
    and "sess_step (recv_ready (done_ch (cl s))) a (sessions s ! i, wg (cl s), logs s)
           = Some (Inr (ss', w', l'))"
  shows "step ev (Sess i a) s
           = Some (s\<lparr>sessions := (sessions s)[i := ss'], cl := (cl s)\<lparr>wg := w'\<rparr>, logs := l'\<rparr>)"
  using assms by (simp add: step_def)

lemma send_has_room:
  "inv_pc ss \<Longrightarrow> inv_tokens ss \<Longrightarrow> cpc ss d = C_send \<Longrightarrow>
     length (buf (copyDone ss)) < cap (copyDone ss) \<and> cap (copyDone ss) = 2 \<and>
     \<not> is_closed (copyDone ss)"
  by (cases d) (auto simp: inv_pc_def inv_tokens_def)

lemma live_pos_copy: "cpc ss d = C_wgdone \<Longrightarrow> 1 \<le> live ss"
  using h_live_nonneg [of "hpc ss"] d_live_nonneg [of "dpc ss"]
    c_live_nonneg [of "cpc ss Accepted"] c_live_nonneg [of "cpc ss Remote"]
  by (cases d) (simp_all add: live_def)

text \<open>A copy task that stands at its deferred send runs to its end.\<close>

lemma copy_tail:
  assumes inv: "proc_inv s" and run: "status s = Running" and i: "i < length (sessions s)"
    and pc: "cpc (sessions s ! i) d = C_send"
  shows "\<exists>s'. exec ev [Sess i (CSend d), Sess i (CWgDone d)] s = Some s' \<and>
     status s' = Running \<and> cpc (sessions s' ! i) d = C_finished \<and>
     wg (cl s') = wg (cl s) - 1 \<and> logs s' = logs s \<and>
     length (sessions s') = length (sessions s) \<and>
     step ev (Sess i (CChunk d n)) s' = None \<and> step ev (Sess i (CEof d)) s' = None \<and>
     step ev (Sess i (CFail d e)) s' = None"
proof -
  let ?ss = "sessions s ! i"
  let ?stop = "recv_ready (done_ch (cl s))"
  have si: "sess_inv ?ss" using proc_inv_sess [OF inv i] .
  have room: "length (buf (copyDone ?ss)) < cap (copyDone ?ss) \<and> \<not> is_closed (copyDone ?ss)"
    using send_has_room [of ?ss d] si pc by (simp add: sess_inv_def)
  let ?ss1 = "?ss\<lparr>cpc := (cpc ?ss)(d := C_wgdone),
                   copyDone := (copyDone ?ss)\<lparr>buf := buf (copyDone ?ss) @ [()]\<rparr>\<rparr>"
  let ?s1 = "s\<lparr>sessions := (sessions s)[i := ?ss1], cl := (cl s)\<lparr>wg := wg (cl s)\<rparr>, logs := logs s\<rparr>"
  have t1: "sess_step ?stop (CSend d) (?ss, wg (cl s), logs s) = Some (Inr (?ss1, wg (cl s), logs s))"
    using pc room by (simp add: chan_send_def)
  have st1: "step ev (Sess i (CSend d)) s = Some ?s1"
    using step_sess_lift [OF run i t1] .
  have inv1: "proc_inv ?s1" using step_proc_inv [OF st1 inv] .
  have i1: "i < length (sessions ?s1)" using i by simp
  have ss1: "sessions ?s1 ! i = ?ss1" using i by simp
  have "live ?ss1 \<le> wg (cl ?s1)"
    using live_le_sum_list [OF i1] inv1 ss1 by (simp add: proc_inv_def)
  then have w1: "1 \<le> wg (cl s)" using live_pos_copy [of ?ss1 d] by simp
  let ?ss2 = "?ss1\<lparr>cpc := (cpc ?ss1)(d := C_finished)\<rparr>"
  let ?s2 = "?s1\<lparr>sessions := (sessions ?s1)[i := ?ss2], cl := (cl ?s1)\<lparr>wg := wg (cl s) - 1\<rparr>,
                 logs := logs s\<rparr>"
  have t2: "sess_step (recv_ready (done_ch (cl ?s1))) (CWgDone d) (sessions ?s1 ! i, wg (cl ?s1), logs ?s1)
      = Some (Inr (?ss2, wg (cl s) - 1, logs s))"
    using w1 i by (simp add: wg_Done_def)
  have run1: "status ?s1 = Running" using run by simp
  have st2: "step ev (Sess i (CWgDone d)) ?s1 = Some ?s2"
    using step_sess_lift [OF run1 i1 t2] .
  have ex: "exec ev [Sess i (CSend d), Sess i (CWgDone d)] s = Some ?s2"
    using st1 st2 by simp
  have obs: "status ?s2 = Running \<and> cpc (sessions ?s2 ! i) d = C_finished \<and>
     wg (cl ?s2) = wg (cl s) - 1 \<and> logs ?s2 = logs s \<and>
     length (sessions ?s2) = length (sessions s)"
    using run i by simp
  have blocked: "step ev (Sess i (CChunk d n)) ?s2 = None \<and> step ev (Sess i (CEof d)) ?s2 = None \<and>
     step ev (Sess i (CFail d e)) ?s2 = None"
    using i by (simp add: step_def)
  show ?thesis using ex obs blocked by blast
qed


lemma live_pos_handler: "hpc ss = H_wgdone \<Longrightarrow> 1 \<le> live ss"
  using d_live_nonneg [of "dpc ss"] c_live_nonneg [of "cpc ss Accepted"]
    c_live_nonneg [of "cpc ss Remote"]
  by (simp add: live_def)

lemma live_pos_duplex: "dpc ss = D_wgdone \<Longrightarrow> 1 \<le> live ss"
  using h_live_nonneg [of "hpc ss"] c_live_nonneg [of "cpc ss Accepted"]
    c_live_nonneg [of "cpc ss Remote"]
  by (simp add: live_def)

lemma wg_pos:
  assumes inv: "proc_inv s" and i: "i < length (sessions s)" and l: "1 \<le> live (sessions s ! i)"
  shows "1 \<le> wg (cl s)"
  using live_le_sum_list [OF i] inv l by (simp add: proc_inv_def)

text \<open>The deferred \<open>c.wg.Done()\<close> of \<open>handleConn\<close> runs and decrements by one.\<close>

lemma handler_done_step:
  assumes inv: "proc_inv s" and run: "status s = Running" and i: "i < length (sessions s)"
    and pc: "hpc (sessions s ! i) = H_wgdone"
  shows "\<exists>s'. step ev (Sess i HWgDone) s = Some s' \<and> status s' = Running \<and>
     hpc (sessions s' ! i) = H_finished \<and> wg (cl s') = wg (cl s) - 1 \<and>
     length (sessions s') = length (sessions s) \<and>
     cpc (sessions s' ! i) = cpc (sessions s ! i)"
proof -
  have "1 \<le> wg (cl s)" using wg_pos [OF inv i live_pos_handler [OF pc]] .
  then show ?thesis using pc run i by (simp add: step_def wg_Done_def)
qed

lemma duplex_done_step:
  assumes inv: "proc_inv s" and run: "status s = Running" and i: "i < length (sessions s)"
    and pc: "dpc (sessions s ! i) = D_wgdone"
  shows "\<exists>s'. step ev (Sess i DWgDone) s = Some s' \<and> status s' = Running \<and>
     dpc (sessions s' ! i) = D_finished \<and> wg (cl s') = wg (cl s) - 1 \<and>
     length (sessions s') = length (sessions s)"
proof -
  have "1 \<le> wg (cl s)" using wg_pos [OF inv i live_pos_duplex [OF pc]] .
  then show ?thesis using pc run i by (simp add: step_def wg_Done_def)
qed

lemma copy_done_step:
  assumes inv: "proc_inv s" and run: "status s = Running" and i: "i < length (sessions s)"
    and pc: "cpc (sessions s ! i) d = C_wgdone"
  shows "\<exists>s'. step ev (Sess i (CWgDone d)) s = Some s' \<and> status s' = Running \<and>
     cpc (sessions s' ! i) d = C_finished \<and> wg (cl s') = wg (cl s) - 1 \<and>
     length (sessions s') = length (sessions s)"
proof -
  have "1 \<le> wg (cl s)" using wg_pos [OF inv i live_pos_copy [OF pc]] .
  then show ?thesis using pc run i by (simp add: step_def wg_Done_def)
qed

text \<open>
  \<open>handleConn\<close> at its select with \<open>c.done\<close> or \<open>ch\<close> closed leaves the select,
  closes both connections and returns.
\<close>

lemma handler_tail:
  assumes inv: "proc_inv s" and run: "status s = Running" and i: "i < length (sessions s)"
    and pc: "hpc (sessions s ! i) = H_select"
    and rdy: "is_closed (done_ch (cl s)) \<or> is_closed (ch (sessions s ! i))"
  shows "\<exists>s'. exec ev [Sess i HSelect, Sess i HCloseRemote, Sess i HCloseAccepted, Sess i HWgDone] s
        = Some s' \<and>
     status s' = Running \<and> hpc (sessions s' ! i) = H_finished \<and>
     nclose (conn_of (sessions s' ! i) Remote) = 1 \<and>
     nclose (conn_of (sessions s' ! i) Accepted) = 1 \<and>
     wg (cl s') = wg (cl s) - 1 \<and> length (sessions s') = length (sessions s) \<and>
     cpc (sessions s' ! i) = cpc (sessions s ! i)"
proof -
  have "\<exists>s1. step ev (Sess i HSelect) s = Some s1 \<and> status s1 = Running \<and>
      hpc (sessions s1 ! i) = H_close_remote \<and> wg (cl s1) = wg (cl s) \<and>
      length (sessions s1) = length (sessions s) \<and>
      cpc (sessions s1 ! i) = cpc (sessions s ! i)"
  proof (cases "recv_ready (done_ch (cl s))")
    case True
    then show ?thesis using pc run i by (simp add: step_def)
  next
    case False
    then have "recv_ready (ch (sessions s ! i))" using rdy by (auto simp: recv_ready_def)
    with False show ?thesis using pc run i by (simp add: step_def)
  qed
  then obtain s1 where s1: "step ev (Sess i HSelect) s = Some s1" "status s1 = Running"
      "hpc (sessions s1 ! i) = H_close_remote" "wg (cl s1) = wg (cl s)"
      "length (sessions s1) = length (sessions s)"
      "cpc (sessions s1 ! i) = cpc (sessions s ! i)"
    by blast
  have inv1: "proc_inv s1" using step_proc_inv [OF s1(1) inv] .
  have i1: "i < length (sessions s1)" using i s1(5) by simp
  obtain s2 where s2: "step ev (Sess i HCloseRemote) s1 = Some s2" "status s2 = Running"
      "hpc (sessions s2 ! i) = H_close_accepted" "wg (cl s2) = wg (cl s1)"
      "length (sessions s2) = length (sessions s1)"
      "cpc (sessions s2 ! i) = cpc (sessions s1 ! i)"
    using s1(2,3) i1 by (auto simp: step_def)
  have inv2: "proc_inv s2" using step_proc_inv [OF s2(1) inv1] .
  have i2: "i < length (sessions s2)" using i1 s2(5) by simp
  obtain s3 where s3: "step ev (Sess i HCloseAccepted) s2 = Some s3" "status s3 = Running"
      "hpc (sessions s3 ! i) = H_wgdone" "wg (cl s3) = wg (cl s2)"
      "length (sessions s3) = length (sessions s2)"
      "cpc (sessions s3 ! i) = cpc (sessions s2 ! i)"
    using s2(2,3) i2 by (auto simp: step_def)
  have inv3: "proc_inv s3" using step_proc_inv [OF s3(1) inv2] .
  have i3: "i < length (sessions s3)" using i2 s3(5) by simp
  obtain s4 where s4: "step ev (Sess i HWgDone) s3 = Some s4" "status s4 = Running"
      "hpc (sessions s4 ! i) = H_finished" "wg (cl s4) = wg (cl s3) - 1"
      "length (sessions s4) = length (sessions s3)"
      "cpc (sessions s4 ! i) = cpc (sessions s3 ! i)"
    using handler_done_step [OF inv3 s3(2) i3 s3(3)] by blast
  have inv4: "proc_inv s4" using step_proc_inv [OF s4(1) inv3] .
  have i4: "i < length (sessions s4)" using i3 s4(5) by simp
  have cl: "nclose (conn_of (sessions s4 ! i) Remote) = 1 \<and>
      nclose (conn_of (sessions s4 ! i) Accepted) = 1"
    using proc_inv_sess [OF inv4 i4] s4(3) by (simp add: sess_inv_def inv_close_def)
  have ex: "exec ev [Sess i HSelect, Sess i HCloseRemote, Sess i HCloseAccepted, Sess i HWgDone] s
      = Some s4"
    using s1(1) s2(1) s3(1) s4(1) by simp
  have "wg (cl s4) = wg (cl s) - 1 \<and> length (sessions s4) = length (sessions s) \<and>
      cpc (sessions s4 ! i) = cpc (sessions s ! i)"
    using s1(4,5,6) s2(4,5,6) s3(4,5,6) s4(4,5,6) by simp
  then show ?thesis using ex s4(2,3) cl by blast
qed

text \<open>\<open>duplexCopy\<close> after its receive closes \<open>ch\<close> and returns.\<close>

lemma duplex_tail:
  assumes inv: "proc_inv s" and run: "status s = Running" and i: "i < length (sessions s)"
    and pc: "dpc (sessions s ! i) = D_close_ch"
  shows "\<exists>s'. exec ev [Sess i DCloseCh, Sess i DWgDone] s = Some s' \<and>
     status s' = Running \<and> dpc (sessions s' ! i) = D_finished \<and>
     is_closed (ch (sessions s' ! i)) \<and>
     wg (cl s') = wg (cl s) - 1 \<and> length (sessions s') = length (sessions s)"
proof -
  have nc: "\<not> is_closed (ch (sessions s ! i))"
    using proc_inv_sess [OF inv i] pc by (simp add: sess_inv_def inv_ch_def)
  obtain s1 where s1: "step ev (Sess i DCloseCh) s = Some s1" "status s1 = Running"
      "dpc (sessions s1 ! i) = D_wgdone" "wg (cl s1) = wg (cl s)"
      "length (sessions s1) = length (sessions s)"
    using pc run i nc by (auto simp: step_def chan_close_def)
  have inv1: "proc_inv s1" using step_proc_inv [OF s1(1) inv] .
  have i1: "i < length (sessions s1)" using i s1(5) by simp
  obtain s2 where s2: "step ev (Sess i DWgDone) s1 = Some s2" "status s2 = Running"
      "dpc (sessions s2 ! i) = D_finished" "wg (cl s2) = wg (cl s1) - 1"
      "length (sessions s2) = length (sessions s1)"
    using duplex_done_step [OF inv1 s1(2) i1 s1(3)] by blast
  have inv2: "proc_inv s2" using step_proc_inv [OF s2(1) inv1] .
  have i2: "i < length (sessions s2)" using i1 s2(5) by simp
  have c: "is_closed (ch (sessions s2 ! i))"
    using proc_inv_sess [OF inv2 i2] s2(3) by (simp add: sess_inv_def inv_ch_def)
  have ex: "exec ev [Sess i DCloseCh, Sess i DWgDone] s = Some s2"
    using s1(1) s2(1) by simp
  have "wg (cl s2) = wg (cl s) - 1 \<and> length (sessions s2) = length (sessions s)"
    using s1(4,5) s2(4,5) by simp
  then show ?thesis using ex s2(2,3) c by blast
qed


text \<open>A copy task whose \<open>io.Copy\<close> has returned, with an error or without, runs to its end.\<close>

lemma copy_from_returned:
  assumes inv: "proc_inv s" and run: "status s = Running" and i: "i < length (sessions s)"
    and pc: "cpc (sessions s ! i) d = C_returned err"
  shows "\<exists>s'. exec ev [Sess i (CClassify d), Sess i (CSend d), Sess i (CWgDone d)] s = Some s' \<and>
     status s' = Running \<and> cpc (sessions s' ! i) d = C_finished \<and>
     wg (cl s') = wg (cl s) - 1 \<and> length (sessions s') = length (sessions s)"
proof -
  obtain s1 where s1: "step ev (Sess i (CClassify d)) s = Some s1" "status s1 = Running"
      "cpc (sessions s1 ! i) d = C_send" "wg (cl s1) = wg (cl s)"
      "length (sessions s1) = length (sessions s)"
    using pc run i by (auto simp: step_def)
  have inv1: "proc_inv s1" using step_proc_inv [OF s1(1) inv] .
  have i1: "i < length (sessions s1)" using i s1(5) by simp
  obtain s' where t: "exec ev [Sess i (CSend d), Sess i (CWgDone d)] s1 = Some s'"
      "status s' = Running" "cpc (sessions s' ! i) d = C_finished"
      "wg (cl s') = wg (cl s1) - 1" "length (sessions s') = length (sessions s1)"
    using copy_tail [OF inv1 s1(2) i1 s1(3), of ev] by blast
  have ex: "exec ev [Sess i (CClassify d), Sess i (CSend d), Sess i (CWgDone d)] s = Some s'"
    using s1(1) t(1) by simp
  show ?thesis using ex t(2,3,4,5) s1(4,5) by auto
qed




section \<open>shutdown is idempotent\<close>

text \<open>
  C6. Initiating shutdown is idempotent. On a client whose \<open>done\<close> channel holds no
  element (it is unbuffered and never sent on), a call of \<open>shutdown\<close> returns without a
  panic and leaves \<open>done\<close> closed; on the client it leaves, any number \<open>n\<close> of further
  calls return without a panic and change nothing, so \<open>close(c.done)\<close> is not run a
  second time (it would panic).
\<close>

theorem shutdown_idempotent:
  "buf (done_ch c) = [] \<Longrightarrow>
     shutdown c = Inr (c\<lparr>done_ch := (done_ch c)\<lparr>is_closed := True\<rparr>\<rparr>) \<and>
     shutdown_times n (c\<lparr>done_ch := (done_ch c)\<lparr>is_closed := True\<rparr>\<rparr>)
       = Inr (c\<lparr>done_ch := (done_ch c)\<lparr>is_closed := True\<rparr>\<rparr>)"
proof -
  assume b: "buf (done_ch c) = []"
  let ?c1 = "c\<lparr>done_ch := (done_ch c)\<lparr>is_closed := True\<rparr>\<rparr>"
  have one: "shutdown ?c1 = Inr ?c1"
    using b by (simp add: shutdown_def recv_ready_def chan_recv_def)
  have "shutdown_times n ?c1 = Inr ?c1"
    by (induction n) (simp_all add: one)
  then show ?thesis using b by (simp add: shutdown_result)
qed

theorem shutdown_idempotent_witness:
  "buf (done_ch (newClient '':8080'' ''10.0.0.1:80'' [] 10 30 (make_chan 1))) = [] \<and>
   \<not> is_closed (done_ch (newClient '':8080'' ''10.0.0.1:80'' [] 10 30 (make_chan 1))) \<and>
   shutdown (newClient '':8080'' ''10.0.0.1:80'' [] 10 30 (make_chan 1))
     = Inr ((newClient '':8080'' ''10.0.0.1:80'' [] 10 30 (make_chan 1))
              \<lparr>done_ch := \<lparr>buf = [], cap = 0, is_closed = True\<rparr>\<rparr>) \<and>
   shutdown_times 3 ((newClient '':8080'' ''10.0.0.1:80'' [] 10 30 (make_chan 1))
              \<lparr>done_ch := \<lparr>buf = [], cap = 0, is_closed = True\<rparr>\<rparr>)
     = Inr ((newClient '':8080'' ''10.0.0.1:80'' [] 10 30 (make_chan 1))
              \<lparr>done_ch := \<lparr>buf = [], cap = 0, is_closed = True\<rparr>\<rparr>)"
  using shutdown_idempotent [of "newClient '':8080'' ''10.0.0.1:80'' [] 10 30 (make_chan 1)" 3]
  by (simp add: newClient_def make_chan_def)

section \<open>The start of Run\<close>

text \<open>
  C9. The claim is that every failure to build the dialer, a malformed proxy URL as well
  as an unsupported scheme, comes before the listener opens. In the code \<open>Run\<close> parses
  the URL, then opens the listener, and only then calls \<open>proxy.FromURL\<close>. So, whatever
  the libraries answer: when \<open>url.Parse\<close> rejects the proxy address, \<open>Run\<close> ends the
  process before the listener is opened, as the claim says; but when \<open>url.Parse\<close>
  accepts it, the listen succeeds and \<open>proxy.FromURL\<close> rejects it, \<open>Run\<close> ends the
  process with the listener already open. In both cases \<open>serve\<close> is not started, and
  when \<open>serve\<close> is started the listener is open and the dialer has been built: the
  direct one without a proxy, the one \<open>proxy.FromURL\<close> returned otherwise.
\<close>

theorem Run_start_order:
  "(proxyAddress (cl s) \<noteq> [] \<and> url_Parse ev (proxyAddress (cl s)) = Inl e \<longrightarrow>
      listener (Run_start ev s) = listener s \<and> status (Run_start ev s) = Exited 1 \<and>
      spc (Run_start ev s) = spc s \<and>
      logs (Run_start ev s) = logs s @ [(FatalLevel, ''could not parse proxy URL: %s'', [AErr e])]) \<and>
   (proxyAddress (cl s) \<noteq> [] \<and> url_Parse ev (proxyAddress (cl s)) = Inr u \<and>
    net_Listen ev (listenAddress (cl s)) = None \<and> proxy_FromURL ev u Direct = Inl e \<longrightarrow>
      listener (Run_start ev s) = L_open \<and> status (Run_start ev s) = Exited 1 \<and>
      spc (Run_start ev s) = spc s \<and> the_dialer (Run_start ev s) = the_dialer s) \<and>
   (spc s = S_idle \<and> spc (Run_start ev s) = S_accept \<longrightarrow>
      listener (Run_start ev s) = L_open \<and> status (Run_start ev s) = status s \<and>
      (proxyAddress (cl s) = [] \<and> the_dialer (Run_start ev s) = Some Direct \<or>
       (\<exists>u' d. proxyAddress (cl s) \<noteq> [] \<and> url_Parse ev (proxyAddress (cl s)) = Inr u' \<and>
          proxy_FromURL ev u' Direct = Inr d \<and> the_dialer (Run_start ev s) = Some d)))"
  by (auto simp: Run_start_def Fatalf_def logf_def go_serve_def Let_def
      split: sum.splits option.splits)

theorem Run_start_order_witness:
  "listener (Run_start demo_env (demo_state ''://bad'')) = L_none \<and>
   status (Run_start demo_env (demo_state ''://bad'')) = Exited 1 \<and>
   spc (Run_start demo_env (demo_state ''://bad'')) = S_idle \<and>
   listener (Run_start demo_env (demo_state ''foo://127.0.0.1:1080/'')) = L_open \<and>
   status (Run_start demo_env (demo_state ''foo://127.0.0.1:1080/'')) = Exited 1 \<and>
   spc (Run_start demo_env (demo_state ''foo://127.0.0.1:1080/'')) = S_idle \<and>
   spc (Run_start demo_env (demo_state ''socks5://127.0.0.1:1080/'')) = S_accept \<and>
   listener (Run_start demo_env (demo_state ''socks5://127.0.0.1:1080/'')) = L_open \<and>
   the_dialer (Run_start demo_env (demo_state ''socks5://127.0.0.1:1080/''))
     = Some (Proxied (URL ''socks5'' ''127.0.0.1:1080'') Direct)"
proof -
  have a: "proxyAddress (cl (demo_state ''://bad'')) \<noteq> [] \<and>
      url_Parse demo_env (proxyAddress (cl (demo_state ''://bad''))) = Inl (OtherError ''parse: missing protocol scheme'')"
    by (simp add: demo_env_def demo_state_def main_state_def init_state_def newClient_def)
  have b: "proxyAddress (cl (demo_state ''foo://127.0.0.1:1080/'')) \<noteq> [] \<and>
      url_Parse demo_env (proxyAddress (cl (demo_state ''foo://127.0.0.1:1080/''))) = Inr (URL ''foo'' ''127.0.0.1:1080'') \<and>
      net_Listen demo_env (listenAddress (cl (demo_state ''foo://127.0.0.1:1080/''))) = None \<and>
      proxy_FromURL demo_env (URL ''foo'' ''127.0.0.1:1080'') Direct = Inl (OtherError ''proxy: unknown scheme'')"
    by (simp add: demo_env_def demo_state_def main_state_def init_state_def newClient_def)
  have c: "spc (demo_state ''socks5://127.0.0.1:1080/'') = S_idle \<and>
      spc (Run_start demo_env (demo_state ''socks5://127.0.0.1:1080/'')) = S_accept"
    by (simp add: demo_env_def demo_state_def main_state_def init_state_def newClient_def
        Run_start_def Fatalf_def logf_def go_serve_def)
  have d: "listener (demo_state ''://bad'') = L_none \<and> spc (demo_state ''://bad'') = S_idle \<and>
      spc (demo_state ''foo://127.0.0.1:1080/'') = S_idle"
    by (simp add: demo_state_def main_state_def init_state_def)
  have e: "the_dialer (Run_start demo_env (demo_state ''socks5://127.0.0.1:1080/''))
     = Some (Proxied (URL ''socks5'' ''127.0.0.1:1080'') Direct)"
    by (simp add: demo_env_def demo_state_def main_state_def init_state_def newClient_def
        Run_start_def Fatalf_def logf_def go_serve_def)
  show ?thesis
    using a b c d e
      Run_start_order [of "demo_state ''://bad''" demo_env "OtherError ''parse: missing protocol scheme''"]
      Run_start_order [of "demo_state ''foo://127.0.0.1:1080/''" demo_env
        "OtherError ''proxy: unknown scheme''" "URL ''foo'' ''127.0.0.1:1080''"]
      Run_start_order [of "demo_state ''socks5://127.0.0.1:1080/''" demo_env]
    by simp
qed

text \<open>
  The run of \<open>Run\<close> with the proxy \<open>foo://127.0.0.1:1080/\<close>: the listener is
  opened, and the line about the open port is logged, before \<open>proxy.FromURL\<close> fails.
\<close>

theorem Run_start_unsupported_scheme_listens:
  "proxy_FromURL demo_env (URL ''foo'' ''127.0.0.1:1080'') Direct = Inl (OtherError ''proxy: unknown scheme'') \<and>
   listener (demo_state ''foo://127.0.0.1:1080/'') = L_none \<and>
   listener (Run_start demo_env (demo_state ''foo://127.0.0.1:1080/'')) = L_open \<and>
   status (Run_start demo_env (demo_state ''foo://127.0.0.1:1080/'')) = Exited 1 \<and>
   logs (Run_start demo_env (demo_state ''foo://127.0.0.1:1080/'')) =
     [(InfoLevel, ''Listening port opened on %s'', [AStr '':8080'']),
      (FatalLevel, ''could not construct proxy: %s'', [AErr (OtherError ''proxy: unknown scheme'')])]"
  by (simp add: demo_env_def demo_state_def main_state_def init_state_def newClient_def
      Run_start_def Fatalf_def logf_def go_serve_def)

section \<open>Run and serve\<close>

lemmas eval_defs =
  demo_env_def demo_state_def main_state_def init_state_def newClient_def step_def
  Run_start_def serve_iter_def Fatalf_def logf_def go_serve_def new_session_def new_conn_def
  conn_Close_def shutdown_def chan_defs

lemmas run_defs =
  run_first_sent_def run_first_done_def run_half_close_def run_copy_failed_def
  run_second_send_def run_session_end_def run_write_failed_def

lemmas view_defs = view_def view_session_def view_conn_def demo_log_def

text \<open>
  C2. The claim is that \<open>Run\<close> returns: the recorded error, or \<open>nil\<close> after a
  shutdown by signal. In the code no statement sends on \<open>c.errChan\<close> or closes it, so
  in every state the process can reach the channel is as \<open>newClient\<close> made it, the
  receive of \<open>return <-c.errChan\<close> is not ready, and \<open>Run\<close> has not returned.
\<close>

theorem Run_never_returns:
  assumes "exec ev acts (main_state la ta pa dt ka) = Some s"
  shows "(\<forall>e. rpc s \<noteq> R_returned e) \<and> errChan (cl s) = make_chan 1 \<and> step ev RunRecvErr s = None"
proof -
  have inv: "proc_inv s"
    using exec_proc_inv [OF assms main_state_inv] .
  then show ?thesis
    by (auto simp: proc_inv_def step_def make_chan_def recv_ready_def)
qed

theorem Run_never_returns_witness:
  "exec demo_env run_signal (demo_state []) = Some st_signal \<and>
   rpc st_signal = R_recv_err \<and> status st_signal = Running \<and> wg (cl st_signal) = 0 \<and>
   buf (errChan (cl st_signal)) = [] \<and> \<not> is_closed (errChan (cl st_signal)) \<and>
   step demo_env RunRecvErr st_signal = None"
proof -
  have e: "exec demo_env run_signal (main_state '':8080'' ''10.0.0.1:80'' [] 10 30) = Some st_signal"
    by (simp add: st_signal_def run_signal_def eval_defs)
  have f: "rpc st_signal = R_recv_err \<and> status st_signal = Running \<and> wg (cl st_signal) = 0"
    by (simp add: st_signal_def run_signal_def eval_defs)
  show ?thesis
    using Run_never_returns [OF e] e f by (simp add: make_chan_def demo_state_def)
qed

text \<open>
  C3. The claim is that an error of \<open>Accept\<close> is recorded as the terminal error and
  that shutdown is initiated. In the code the turn of the loop that meets the error writes
  the fatal log line, which ends the process with status 1: the client, and with it
  \<open>c.errChan\<close> and \<open>c.done\<close>, is left as it was, and no goroutine takes another
  step.
\<close>

theorem accept_error_exits:
  "status s = Running \<Longrightarrow> spc s = S_accept \<Longrightarrow>
     step ev (Accept (Inl e) dial) s
       = Some (s\<lparr>logs := logs s @ [(FatalLevel, ''error accepting connection: %s'', [AErr e])],
                 status := Exited 1\<rparr>) \<and>
     step ev a (s\<lparr>logs := logs s @ [(FatalLevel, ''error accepting connection: %s'', [AErr e])],
                  status := Exited 1\<rparr>) = None"
  by (simp add: step_def serve_iter_def Fatalf_def logf_def)

theorem accept_error_exits_witness:
  "exec demo_env run_accept_error (demo_state []) = Some st_accept_error \<and>
   status st_accept_error = Exited 1 \<and> rpc st_accept_error = R_select \<and>
   buf (errChan (cl st_accept_error)) = [] \<and> \<not> is_closed (done_ch (cl st_accept_error)) \<and>
   logs st_accept_error =
     [(InfoLevel, ''Listening port opened on %s'', [AStr '':8080'']),
      (FatalLevel, ''error accepting connection: %s'', [AErr (OtherError ''accept tcp: too many open files'')])] \<and>
   step demo_env RunShutdown st_accept_error = None"
proof -
  have a: "status (Run_start demo_env (demo_state [])) = Running \<and>
      spc (Run_start demo_env (demo_state [])) = S_accept"
    by (simp add: eval_defs)
  have b: "exec demo_env run_accept_error (demo_state [])
      = step demo_env (Accept (Inl (OtherError ''accept tcp: too many open files'')) (Inl (OtherError ''not reached'')))
          (Run_start demo_env (demo_state []))"
    by (simp add: run_accept_error_def step_def demo_state_def main_state_def init_state_def
        split: option.splits)
  have c: "st_accept_error = (Run_start demo_env (demo_state []))
      \<lparr>logs := logs (Run_start demo_env (demo_state [])) @
         [(FatalLevel, ''error accepting connection: %s'', [AErr (OtherError ''accept tcp: too many open files'')])],
       status := Exited 1\<rparr>"
    using accept_error_exits [of "Run_start demo_env (demo_state [])" demo_env
        "OtherError ''accept tcp: too many open files''" "Inl (OtherError ''not reached'')" RunShutdown] a
    by (simp add: st_accept_error_def b)
  have d: "step demo_env RunShutdown st_accept_error = None"
    using accept_error_exits [of "Run_start demo_env (demo_state [])" demo_env
        "OtherError ''accept tcp: too many open files''" "Inl (OtherError ''not reached'')" RunShutdown] a
    by (simp add: c)
  have e: "exec demo_env run_accept_error (demo_state []) = Some st_accept_error"
    by (simp add: st_accept_error_def run_accept_error_def eval_defs)
  show ?thesis
    using d e by (simp add: c) (simp add: eval_defs)
qed

text \<open>
  C8, as amended. When \<open>serve\<close> is at \<open>Accept\<close> with the listener open and the dial for an
  accepted connection fails, the turn of the loop closes the accepted connection (one call
  of \<open>Close\<close>), logs the failure, leaves \<open>c.wg\<close> and the sessions as they were and
  leaves the process running with \<open>serve\<close> at \<open>Accept\<close> again; a next connection
  whose dial succeeds becomes a new session, with \<open>c.wg\<close> incremented by one.
\<close>

theorem dial_failure_not_fatal:
  assumes "status s = Running" and "spc s = S_accept" and "listener s = L_open"
  shows "step ev (Accept (Inr a) (Inl e)) s = Some (serve_iter (Inr a) (Inl e) s) \<and>
     refused (serve_iter (Inr a) (Inl e) s) = refused s @ [conn_Close (new_conn a)] \<and>
     nclose (conn_Close (new_conn a)) = 1 \<and>
     logs (serve_iter (Inr a) (Inl e) s) = logs s @
       [(InfoLevel, ''accepted connection from %s on %s'', [AStr (fst a), AStr (snd a)]),
        (ErrorLevel, ''error dialing remote target: %s'', [AErr e])] \<and>
     wg (cl (serve_iter (Inr a) (Inl e) s)) = wg (cl s) \<and>
     sessions (serve_iter (Inr a) (Inl e) s) = sessions s \<and>
     status (serve_iter (Inr a) (Inl e) s) = Running \<and>
     spc (serve_iter (Inr a) (Inl e) s) = S_accept \<and>
     listener (serve_iter (Inr a) (Inl e) s) = L_open \<and>
     exec ev [Accept (Inr a) (Inl e), Accept (Inr a') (Inr r')] s
       = Some (serve_iter (Inr a') (Inr r') (serve_iter (Inr a) (Inl e) s)) \<and>
     sessions (serve_iter (Inr a') (Inr r') (serve_iter (Inr a) (Inl e) s))
       = sessions s @ [new_session a' r'] \<and>
     wg (cl (serve_iter (Inr a') (Inr r') (serve_iter (Inr a) (Inl e) s))) = wg (cl s) + 1 \<and>
     status (serve_iter (Inr a') (Inr r') (serve_iter (Inr a) (Inl e) s)) = Running \<and>
     spc (serve_iter (Inr a') (Inr r') (serve_iter (Inr a) (Inl e) s)) = S_accept"
  using assms by (simp add: step_def serve_iter_def logf_def conn_Close_def new_conn_def)

theorem dial_failure_not_fatal_witness:
  "status (Run_start demo_env (demo_state [])) = Running \<and>
   spc (Run_start demo_env (demo_state [])) = S_accept \<and>
   listener (Run_start demo_env (demo_state [])) = L_open \<and>
   map_option (\<lambda>s. (wg (cl s), map hpc (sessions s), map nclose (refused s), status s))
     (exec demo_env
        [Accept (Inr (''198.51.100.7:40000'', ''192.0.2.1:8080'')) (Inl (OtherError ''dial tcp: connection refused'')),
         Accept (Inr (''198.51.100.8:40001'', ''192.0.2.1:8080'')) (Inr (''10.0.0.1:80'', ''192.0.2.1:50000''))]
        (Run_start demo_env (demo_state [])))
     = Some (1, [H_start], [1], Running)"
proof -
  have a: "status (Run_start demo_env (demo_state [])) = Running \<and>
      spc (Run_start demo_env (demo_state [])) = S_accept \<and>
      listener (Run_start demo_env (demo_state [])) = L_open"
    by (simp add: eval_defs)
  show ?thesis
    using a dial_failure_not_fatal [of "Run_start demo_env (demo_state [])" demo_env
        "(''198.51.100.7:40000'', ''192.0.2.1:8080'')" "OtherError ''dial tcp: connection refused''"
        "(''198.51.100.8:40001'', ''192.0.2.1:8080'')" "(''10.0.0.1:80'', ''192.0.2.1:50000'')"]
    by (simp add: eval_defs)
qed

text \<open>
  The claim as stated adds that a dial failure is the only error of a single connection
  that leaves the rest of the system running. It is not: in \<open>run_after_copy_error\<close>
  a write of a copy task fails, the error is logged, the process keeps running, and the
  next connection is accepted and tunneled.
\<close>

theorem copy_error_not_fatal_either_counterexample:
  "map_option view (exec demo_env run_after_copy_error (demo_state []))
     = Some ((Running, R_select, 5, False),
         demo_log @
         [(ErrorLevel, ''failed to copy connection from %s to %s: %s'',
           [AStr ''198.51.100.7:40000'', AStr ''10.0.0.1:80'', AErr (OpError ''write'' ''broken pipe'')]),
          (InfoLevel, ''accepted connection from %s on %s'',
           [AStr ''198.51.100.8:40001'', AStr ''192.0.2.1:8080'']),
          (InfoLevel, ''tunneling connection from %s to %s'',
           [AStr ''198.51.100.8:40001'', AStr ''10.0.0.1:80''])],
         [((H_select, D_recv, C_finished, C_copying),
           (Some (Some (OpError ''write'' ''broken pipe'')), None),
           (''198.51.100.7:40000'', 0, [1, 2, 3], [1, 2, 3], []), (''10.0.0.1:80'', 0, [], [], []),
           False, 1),
          ((H_select, D_start, C_idle, C_idle), (None, None),
           (''198.51.100.8:40001'', 0, [], [], []), (''10.0.0.1:80'', 0, [], [], []),
           False, 0)])"
  by (simp add: run_after_copy_error_def run_defs eval_defs view_defs)

section \<open>The example runs, evaluated\<close>

lemma view_the:
  "map_option view (exec ev as s0) = Some v \<Longrightarrow>
     exec ev as s0 = Some (the (exec ev as s0)) \<and> view (the (exec ev as s0)) = v"
  by (cases "exec ev as s0") auto

lemma view_fields:
  assumes "view s = ((st, r, w, dn), l,
      [((h, d, ca, cr), (ia, ir), (aa, na, sa, ba, wa), (ar, nr, sr, br, wr), chc, n)])"
  shows "status s = st" "rpc s = r" "wg (cl s) = w" "is_closed (done_ch (cl s)) = dn" "logs s = l"
    "length (sessions s) = 1" "hpc (sessions s ! 0) = h" "dpc (sessions s ! 0) = d"
    "cpc (sessions s ! 0) Accepted = ca" "cpc (sessions s ! 0) Remote = cr"
    "io_result (sessions s ! 0) Accepted = ia" "io_result (sessions s ! 0) Remote = ir"
    "remoteAddr (conn_of (sessions s ! 0) Accepted) = aa" "nclose (conn_of (sessions s ! 0) Accepted) = na"
    "peer_sent (conn_of (sessions s ! 0) Accepted) = sa" "inbuf (conn_of (sessions s ! 0) Accepted) = ba"
    "outbuf (conn_of (sessions s ! 0) Accepted) = wa"
    "remoteAddr (conn_of (sessions s ! 0) Remote) = ar" "nclose (conn_of (sessions s ! 0) Remote) = nr"
    "peer_sent (conn_of (sessions s ! 0) Remote) = sr" "inbuf (conn_of (sessions s ! 0) Remote) = br"
    "outbuf (conn_of (sessions s ! 0) Remote) = wr"
    "is_closed (ch (sessions s ! 0)) = chc" "length (buf (copyDone (sessions s ! 0))) = n"
  using assms by (auto simp: view_def view_session_def view_conn_def)

lemma first_sent_view:
  "map_option view (exec demo_env run_first_sent (main_state '':8080'' ''10.0.0.1:80'' [] 10 30))
     = Some ((Running, R_select, 4, False), demo_log,
        [((H_select, D_recv, C_wgdone, C_copying), (Some None, None),
          (''198.51.100.7:40000'', 0, [1, 2, 3], [], []), (''10.0.0.1:80'', 0, [4, 5], [4, 5], [1, 2, 3]),
          False, 1)])"
  by (simp add: run_defs eval_defs view_defs)


lemma half_close_view:
  "map_option view (exec demo_env run_half_close (main_state '':8080'' ''10.0.0.1:80'' [] 10 30))
     = Some ((Running, R_select, 3, False), demo_log,
        [((H_finished, D_wgdone, C_wgdone, C_copying), (Some None, None),
          (''198.51.100.7:40000'', 1, [1, 2, 3], [], []), (''10.0.0.1:80'', 1, [4, 5], [4, 5], [1, 2, 3]),
          True, 0)])"
  by (simp add: run_defs eval_defs view_defs)

lemma copy_failed_view:
  "map_option view (exec demo_env run_copy_failed (main_state '':8080'' ''10.0.0.1:80'' [] 10 30))
     = Some ((Running, R_select, 3, False), demo_log,
        [((H_finished, D_wgdone, C_wgdone,
           C_returned (Some (OpError ''read'' ''use of closed network connection''))),
          (Some None, Some (Some (OpError ''read'' ''use of closed network connection''))),
          (''198.51.100.7:40000'', 1, [1, 2, 3], [], []), (''10.0.0.1:80'', 1, [4, 5], [4, 5], [1, 2, 3]),
          True, 0)])"
  by (simp add: run_defs eval_defs view_defs)

lemma second_send_view:
  "map_option view (exec demo_env run_second_send (main_state '':8080'' ''10.0.0.1:80'' [] 10 30))
     = Some ((Running, R_select, 3, False), demo_log,
        [((H_finished, D_wgdone, C_wgdone, C_send),
          (Some None, Some (Some (OpError ''read'' ''use of closed network connection''))),
          (''198.51.100.7:40000'', 1, [1, 2, 3], [], []), (''10.0.0.1:80'', 1, [4, 5], [4, 5], [1, 2, 3]),
          True, 0)])"
  by (simp add: run_defs eval_defs view_defs)

lemma session_end_view:
  "map_option view (exec demo_env run_session_end (main_state '':8080'' ''10.0.0.1:80'' [] 10 30))
     = Some ((Running, R_select, 0, False), demo_log,
        [((H_finished, D_finished, C_finished, C_finished),
          (Some None, Some (Some (OpError ''read'' ''use of closed network connection''))),
          (''198.51.100.7:40000'', 1, [1, 2, 3], [], []), (''10.0.0.1:80'', 1, [4, 5], [4, 5], [1, 2, 3]),
          True, 1)])"
  by (simp add: run_defs eval_defs view_defs)


lemmas first_sent = view_the [OF first_sent_view, folded demo_state_def st_first_sent_def]
lemmas half_close = view_the [OF half_close_view, folded demo_state_def st_half_close_def]
lemmas copy_failed = view_the [OF copy_failed_view, folded demo_state_def st_copy_failed_def]
lemmas second_send = view_the [OF second_send_view, folded demo_state_def st_second_send_def]
lemmas session_end = view_the [OF session_end_view, folded demo_state_def st_session_end_def]


lemmas stop_defs = run_stop_def run_stop_recv_def run_stop_duplex_def stop_log_def

lemma stop_view:
  "map_option view (exec demo_env run_stop (main_state '':8080'' ''10.0.0.1:80'' [] 10 30))
     = Some ((Running, R_close_listener, 4, True), stop_log,
        [((H_select, D_recv, C_copying, C_copying), (None, None),
          (''198.51.100.7:40000'', 0, [], [], []), (''10.0.0.1:80'', 0, [], [], []),
          False, 0)])"
  by (simp add: stop_defs eval_defs view_defs)

lemma stop_recv_view:
  "map_option view (exec demo_env run_stop_recv (main_state '':8080'' ''10.0.0.1:80'' [] 10 30))
     = Some ((Running, R_close_listener, 4, True), stop_log,
        [((H_wgdone, D_close_ch, C_wgdone, C_copying),
          (Some (Some (OpError ''read'' ''use of closed network connection'')), None),
          (''198.51.100.7:40000'', 1, [], [], []), (''10.0.0.1:80'', 1, [], [], []),
          False, 0)])"
  by (simp add: stop_defs eval_defs view_defs)

lemma stop_duplex_view:
  "map_option view (exec demo_env run_stop_duplex (main_state '':8080'' ''10.0.0.1:80'' [] 10 30))
     = Some ((Running, R_close_listener, 4, True), stop_log,
        [((H_wgdone, D_wgdone, C_wgdone, C_copying),
          (Some (Some (OpError ''read'' ''use of closed network connection'')), None),
          (''198.51.100.7:40000'', 1, [], [], []), (''10.0.0.1:80'', 1, [], [], []),
          True, 0)])"
  by (simp add: stop_defs eval_defs view_defs)

lemmas stop = view_the [OF stop_view, folded demo_state_def st_stop_def]
lemmas stop_recv = view_the [OF stop_recv_view, folded demo_state_def st_stop_recv_def]
lemmas stop_duplex = view_the [OF stop_duplex_view, folded demo_state_def st_stop_duplex_def]

section \<open>The goroutines of a session\<close>




text \<open>
  C10. In every state the process can reach, a copy task whose \<open>io.Copy\<close> has
  returned is never blocked: the classification can run, the send on \<open>copyDone\<close> can
  run because the channel has capacity 2 and holds fewer than 2 elements (whether or not
  \<open>duplexCopy\<close> has received, and whatever the other copy task has done), and the
  \<open>wg.Done()\<close> can run and decrements the counter by one.
\<close>

theorem copy_completion_never_blocks:
  assumes reach: "exec ev acts (main_state la ta pa dt ka) = Some s"
    and run: "status s = Running" and i: "i < length (sessions s)"
  shows "(\<forall>err. cpc (sessions s ! i) d = C_returned err \<longrightarrow>
        (\<exists>s'. step ev (Sess i (CClassify d)) s = Some s' \<and> status s' = Running \<and>
           cpc (sessions s' ! i) d = C_send)) \<and>
     (cpc (sessions s ! i) d = C_send \<longrightarrow>
        cap (copyDone (sessions s ! i)) = 2 \<and> length (buf (copyDone (sessions s ! i))) < 2 \<and>
        (\<exists>s'. step ev (Sess i (CSend d)) s = Some s' \<and> status s' = Running \<and>
           cpc (sessions s' ! i) d = C_wgdone)) \<and>
     (cpc (sessions s ! i) d = C_wgdone \<longrightarrow>
        (\<exists>s'. step ev (Sess i (CWgDone d)) s = Some s' \<and> status s' = Running \<and>
           cpc (sessions s' ! i) d = C_finished \<and> wg (cl s') = wg (cl s) - 1))"
proof -
  have inv: "proc_inv s" using reach_inv [OF reach] .
  let ?ss = "sessions s ! i"
  have si: "sess_inv ?ss" using proc_inv_sess [OF inv i] .
  have a: "\<exists>s'. step ev (Sess i (CClassify d)) s = Some s' \<and> status s' = Running \<and>
           cpc (sessions s' ! i) d = C_send" if "cpc ?ss d = C_returned err" for err
    using that run i by (simp add: step_def)
  have b: "cap (copyDone ?ss) = 2 \<and> length (buf (copyDone ?ss)) < 2 \<and>
        (\<exists>s'. step ev (Sess i (CSend d)) s = Some s' \<and> status s' = Running \<and>
           cpc (sessions s' ! i) d = C_wgdone)" if pc: "cpc ?ss d = C_send"
  proof -
    have room: "length (buf (copyDone ?ss)) < cap (copyDone ?ss) \<and> cap (copyDone ?ss) = 2 \<and>
        \<not> is_closed (copyDone ?ss)"
      using send_has_room [of ?ss d] si pc by (simp add: sess_inv_def)
    then show ?thesis using pc run i by (simp add: step_def chan_send_def)
  qed
  have c: "\<exists>s'. step ev (Sess i (CWgDone d)) s = Some s' \<and> status s' = Running \<and>
           cpc (sessions s' ! i) d = C_finished \<and> wg (cl s') = wg (cl s) - 1"
    if pc: "cpc ?ss d = C_wgdone"
  proof -
    have "live ?ss \<le> wg (cl s)"
      using live_le_sum_list [OF i] inv by (simp add: proc_inv_def)
    then have "1 \<le> wg (cl s)" using live_pos_copy [OF pc] by simp
    then show ?thesis using pc run i by (simp add: step_def wg_Done_def)
  qed
  show ?thesis using a b c by blast
qed


theorem copy_completion_never_blocks_witness:
  "exec demo_env run_copy_failed (demo_state []) = Some st_copy_failed \<and>
   status st_copy_failed = Running \<and>
   cpc (sessions st_copy_failed ! 0) Remote
     = C_returned (Some (OpError ''read'' ''use of closed network connection'')) \<and>
   step demo_env (Sess 0 (CClassify Remote)) st_copy_failed \<noteq> None \<and>
   exec demo_env run_second_send (demo_state []) = Some st_second_send \<and>
   status st_second_send = Running \<and>
   cpc (sessions st_second_send ! 0) Remote = C_send \<and>
   dpc (sessions st_second_send ! 0) = D_wgdone \<and>
   cap (copyDone (sessions st_second_send ! 0)) = 2 \<and>
   length (buf (copyDone (sessions st_second_send ! 0))) = 0 \<and>
   step demo_env (Sess 0 (CSend Remote)) st_second_send \<noteq> None \<and>
   exec demo_env run_first_sent (demo_state []) = Some st_first_sent \<and>
   status st_first_sent = Running \<and>
   cpc (sessions st_first_sent ! 0) Accepted = C_wgdone \<and>
   step demo_env (Sess 0 (CWgDone Accepted)) st_first_sent \<noteq> None"
proof -
  note a = view_fields [OF copy_failed [THEN conjunct2]]
  note b = view_fields [OF second_send [THEN conjunct2]]
  note c = view_fields [OF first_sent [THEN conjunct2]]
  have e1: "exec demo_env run_copy_failed (main_state '':8080'' ''10.0.0.1:80'' [] 10 30) = Some st_copy_failed"
    using copy_failed by (simp add: demo_state_def)
  have e2: "exec demo_env run_second_send (main_state '':8080'' ''10.0.0.1:80'' [] 10 30) = Some st_second_send"
    using second_send by (simp add: demo_state_def)
  have e3: "exec demo_env run_first_sent (main_state '':8080'' ''10.0.0.1:80'' [] 10 30) = Some st_first_sent"
    using first_sent by (simp add: demo_state_def)
  have i1: "0 < length (sessions st_copy_failed)" using a(6) by simp
  have i2: "0 < length (sessions st_second_send)" using b(6) by simp
  have i3: "0 < length (sessions st_first_sent)" using c(6) by simp
  have r1: "step demo_env (Sess 0 (CClassify Remote)) st_copy_failed \<noteq> None"
    using copy_completion_never_blocks [OF e1 a(1) i1, where d = Remote] a(10) by auto
  have r2: "cap (copyDone (sessions st_second_send ! 0)) = 2 \<and>
      step demo_env (Sess 0 (CSend Remote)) st_second_send \<noteq> None"
    using copy_completion_never_blocks [OF e2 b(1) i2, where d = Remote] b(10) by auto
  have r3: "step demo_env (Sess 0 (CWgDone Accepted)) st_first_sent \<noteq> None"
    using copy_completion_never_blocks [OF e3 c(1) i3, where d = Accepted] c(9) by auto
  show ?thesis
    using r1 r2 r3 copy_failed second_send first_sent a(1,10) b(1,8,10,24) c(1,9) by simp
qed

text \<open>
  C5. In every state the process can reach, the counter of \<open>c.wg\<close> is the number of
  tasks (session handlers, duplex copies and directional copies) for which \<open>wg.Add\<close> has
  counted and which have not yet run their \<open>wg.Done()\<close>; it is never negative, no
  \<open>wg.Done()\<close> has panicked, and once every task of every session has finished it
  is zero. While the process runs, every task does decrement, on each of its ways out:
  \<open>handleConn\<close> from its select, whether \<open>c.done\<close> or \<open>ch\<close> let it through,
  \<open>duplexCopy\<close> from its receive, and \<open>connCopy\<close> from the return of \<open>io.Copy\<close>,
  with an error or without, each reach their \<open>wg.Done()\<close>, which runs, decrements the
  counter by exactly one and ends the task. A task that has ended cannot run its
  \<open>wg.Done()\<close> again.
\<close>

theorem wg_counts_live_tasks:
  assumes reach: "exec ev acts (main_state la ta pa dt ka) = Some s"
  shows "wg (cl s) = sum_list (map live (sessions s)) \<and> 0 \<le> wg (cl s) \<and>
     (\<forall>p. status s \<noteq> Panicked p) \<and>
     ((\<forall>ss \<in> set (sessions s). hpc ss = H_finished \<and> dpc ss = D_finished \<and>
          cpc ss Accepted = C_finished \<and> cpc ss Remote = C_finished) \<longrightarrow> wg (cl s) = 0) \<and>
     (status s = Running \<and> i < length (sessions s) \<longrightarrow>
        (hpc (sessions s ! i) = H_select \<and>
         (is_closed (done_ch (cl s)) \<or> is_closed (ch (sessions s ! i))) \<longrightarrow>
           (\<exists>s'. exec ev [Sess i HSelect, Sess i HCloseRemote, Sess i HCloseAccepted, Sess i HWgDone] s
                    = Some s' \<and>
              hpc (sessions s' ! i) = H_finished \<and> wg (cl s') = wg (cl s) - 1)) \<and>
        (hpc (sessions s ! i) = H_wgdone \<longrightarrow>
           (\<exists>s'. step ev (Sess i HWgDone) s = Some s' \<and>
              hpc (sessions s' ! i) = H_finished \<and> wg (cl s') = wg (cl s) - 1)) \<and>
        (dpc (sessions s ! i) = D_close_ch \<longrightarrow>
           (\<exists>s'. exec ev [Sess i DCloseCh, Sess i DWgDone] s = Some s' \<and>
              dpc (sessions s' ! i) = D_finished \<and> wg (cl s') = wg (cl s) - 1)) \<and>
        (dpc (sessions s ! i) = D_wgdone \<longrightarrow>
           (\<exists>s'. step ev (Sess i DWgDone) s = Some s' \<and>
              dpc (sessions s' ! i) = D_finished \<and> wg (cl s') = wg (cl s) - 1)) \<and>
        (cpc (sessions s ! i) d = C_returned err \<longrightarrow>
           (\<exists>s'. exec ev [Sess i (CClassify d), Sess i (CSend d), Sess i (CWgDone d)] s = Some s' \<and>
              cpc (sessions s' ! i) d = C_finished \<and> wg (cl s') = wg (cl s) - 1)) \<and>
        (cpc (sessions s ! i) d = C_wgdone \<longrightarrow>
           (\<exists>s'. step ev (Sess i (CWgDone d)) s = Some s' \<and>
              cpc (sessions s' ! i) d = C_finished \<and> wg (cl s') = wg (cl s) - 1))) \<and>
     (i < length (sessions s) \<longrightarrow>
        (hpc (sessions s ! i) = H_finished \<longrightarrow> step ev (Sess i HWgDone) s = None) \<and>
        (dpc (sessions s ! i) = D_finished \<longrightarrow> step ev (Sess i DWgDone) s = None) \<and>
        (cpc (sessions s ! i) d = C_finished \<longrightarrow> step ev (Sess i (CWgDone d)) s = None))"
proof -
  have inv: "proc_inv s" using reach_inv [OF reach] .
  have w: "wg (cl s) = sum_list (map live (sessions s))" using inv by (simp add: proc_inv_def)
  have p: "\<forall>p. status s \<noteq> Panicked p" using inv by (auto simp: proc_inv_def)
  have z: "sum_list (map live xs) = 0"
    if "\<forall>ss \<in> set xs. hpc ss = H_finished \<and> dpc ss = D_finished \<and>
          cpc ss Accepted = C_finished \<and> cpc ss Remote = C_finished" for xs
    using that by (induction xs) (simp_all add: live_def)
  have safe: "wg (cl s) = sum_list (map live (sessions s)) \<and> 0 \<le> wg (cl s) \<and>
     (\<forall>p. status s \<noteq> Panicked p) \<and>
     ((\<forall>ss \<in> set (sessions s). hpc ss = H_finished \<and> dpc ss = D_finished \<and>
          cpc ss Accepted = C_finished \<and> cpc ss Remote = C_finished) \<longrightarrow> wg (cl s) = 0)"
    using w p z [of "sessions s"] sum_list_live_nonneg [of "sessions s"] by simp
  have dec: "status s = Running \<and> i < length (sessions s) \<longrightarrow>
        (hpc (sessions s ! i) = H_select \<and>
         (is_closed (done_ch (cl s)) \<or> is_closed (ch (sessions s ! i))) \<longrightarrow>
           (\<exists>s'. exec ev [Sess i HSelect, Sess i HCloseRemote, Sess i HCloseAccepted, Sess i HWgDone] s
                    = Some s' \<and>
              hpc (sessions s' ! i) = H_finished \<and> wg (cl s') = wg (cl s) - 1)) \<and>
        (hpc (sessions s ! i) = H_wgdone \<longrightarrow>
           (\<exists>s'. step ev (Sess i HWgDone) s = Some s' \<and>
              hpc (sessions s' ! i) = H_finished \<and> wg (cl s') = wg (cl s) - 1)) \<and>
        (dpc (sessions s ! i) = D_close_ch \<longrightarrow>
           (\<exists>s'. exec ev [Sess i DCloseCh, Sess i DWgDone] s = Some s' \<and>
              dpc (sessions s' ! i) = D_finished \<and> wg (cl s') = wg (cl s) - 1)) \<and>
        (dpc (sessions s ! i) = D_wgdone \<longrightarrow>
           (\<exists>s'. step ev (Sess i DWgDone) s = Some s' \<and>
              dpc (sessions s' ! i) = D_finished \<and> wg (cl s') = wg (cl s) - 1)) \<and>
        (cpc (sessions s ! i) d = C_returned err \<longrightarrow>
           (\<exists>s'. exec ev [Sess i (CClassify d), Sess i (CSend d), Sess i (CWgDone d)] s = Some s' \<and>
              cpc (sessions s' ! i) d = C_finished \<and> wg (cl s') = wg (cl s) - 1)) \<and>
        (cpc (sessions s ! i) d = C_wgdone \<longrightarrow>
           (\<exists>s'. step ev (Sess i (CWgDone d)) s = Some s' \<and>
              cpc (sessions s' ! i) d = C_finished \<and> wg (cl s') = wg (cl s) - 1))"
  proof (intro impI, elim conjE)
    assume run: "status s = Running" and i: "i < length (sessions s)"
    show "(hpc (sessions s ! i) = H_select \<and>
         (is_closed (done_ch (cl s)) \<or> is_closed (ch (sessions s ! i))) \<longrightarrow>
           (\<exists>s'. exec ev [Sess i HSelect, Sess i HCloseRemote, Sess i HCloseAccepted, Sess i HWgDone] s
                    = Some s' \<and>
              hpc (sessions s' ! i) = H_finished \<and> wg (cl s') = wg (cl s) - 1)) \<and>
        (hpc (sessions s ! i) = H_wgdone \<longrightarrow>
           (\<exists>s'. step ev (Sess i HWgDone) s = Some s' \<and>
              hpc (sessions s' ! i) = H_finished \<and> wg (cl s') = wg (cl s) - 1)) \<and>
        (dpc (sessions s ! i) = D_close_ch \<longrightarrow>
           (\<exists>s'. exec ev [Sess i DCloseCh, Sess i DWgDone] s = Some s' \<and>
              dpc (sessions s' ! i) = D_finished \<and> wg (cl s') = wg (cl s) - 1)) \<and>
        (dpc (sessions s ! i) = D_wgdone \<longrightarrow>
           (\<exists>s'. step ev (Sess i DWgDone) s = Some s' \<and>
              dpc (sessions s' ! i) = D_finished \<and> wg (cl s') = wg (cl s) - 1)) \<and>
        (cpc (sessions s ! i) d = C_returned err \<longrightarrow>
           (\<exists>s'. exec ev [Sess i (CClassify d), Sess i (CSend d), Sess i (CWgDone d)] s = Some s' \<and>
              cpc (sessions s' ! i) d = C_finished \<and> wg (cl s') = wg (cl s) - 1)) \<and>
        (cpc (sessions s ! i) d = C_wgdone \<longrightarrow>
           (\<exists>s'. step ev (Sess i (CWgDone d)) s = Some s' \<and>
              cpc (sessions s' ! i) d = C_finished \<and> wg (cl s') = wg (cl s) - 1))"
      using handler_tail [OF inv run i, of ev] handler_done_step [OF inv run i, of ev]
        duplex_tail [OF inv run i, of ev] duplex_done_step [OF inv run i, of ev]
        copy_from_returned [OF inv run i, of d err ev] copy_done_step [OF inv run i, of d ev]
      by (intro conjI impI) blast+
  qed
  have once: "i < length (sessions s) \<longrightarrow>
        (hpc (sessions s ! i) = H_finished \<longrightarrow> step ev (Sess i HWgDone) s = None) \<and>
        (dpc (sessions s ! i) = D_finished \<longrightarrow> step ev (Sess i DWgDone) s = None) \<and>
        (cpc (sessions s ! i) d = C_finished \<longrightarrow> step ev (Sess i (CWgDone d)) s = None)"
    by (simp add: step_def)
  show ?thesis using safe dec once by blast
qed

theorem wg_counts_live_tasks_witness:
  "exec demo_env run_session_end (demo_state []) = Some st_session_end \<and>
   length (sessions st_session_end) = 1 \<and>
   hpc (sessions st_session_end ! 0) = H_finished \<and>
   dpc (sessions st_session_end ! 0) = D_finished \<and>
   cpc (sessions st_session_end ! 0) Accepted = C_finished \<and>
   cpc (sessions st_session_end ! 0) Remote = C_finished \<and>
   wg (cl st_session_end) = 0 \<and>
   step demo_env (Sess 0 HWgDone) st_session_end = None \<and>
   step demo_env (Sess 0 DWgDone) st_session_end = None \<and>
   step demo_env (Sess 0 (CWgDone Accepted)) st_session_end = None \<and>
   exec demo_env run_half_close (demo_state []) = Some st_half_close \<and>
   hpc (sessions st_half_close ! 0) = H_finished \<and>
   cpc (sessions st_half_close ! 0) Remote = C_copying \<and>
   sum_list (map live (sessions st_half_close)) = 3 \<and>
   wg (cl st_half_close) = 3 \<and>
   exec demo_env run_stop (demo_state []) = Some st_stop \<and>
   status st_stop = Running \<and> is_closed (done_ch (cl st_stop)) \<and>
   hpc (sessions st_stop ! 0) = H_select \<and> wg (cl st_stop) = 4 \<and>
   (\<exists>s'. exec demo_env [Sess 0 HSelect, Sess 0 HCloseRemote, Sess 0 HCloseAccepted, Sess 0 HWgDone]
            st_stop = Some s' \<and>
      hpc (sessions s' ! 0) = H_finished \<and> wg (cl s') = 3) \<and>
   exec demo_env run_stop_recv (demo_state []) = Some st_stop_recv \<and>
   status st_stop_recv = Running \<and> is_closed (done_ch (cl st_stop_recv)) \<and>
   dpc (sessions st_stop_recv ! 0) = D_close_ch \<and> wg (cl st_stop_recv) = 4 \<and>
   (\<exists>s'. exec demo_env [Sess 0 DCloseCh, Sess 0 DWgDone] st_stop_recv = Some s' \<and>
      dpc (sessions s' ! 0) = D_finished \<and> wg (cl s') = 3) \<and>
   exec demo_env run_stop_duplex (demo_state []) = Some st_stop_duplex \<and>
   status st_stop_duplex = Running \<and> is_closed (done_ch (cl st_stop_duplex)) \<and>
   hpc (sessions st_stop_duplex ! 0) = H_wgdone \<and>
   dpc (sessions st_stop_duplex ! 0) = D_wgdone \<and>
   cpc (sessions st_stop_duplex ! 0) Accepted = C_wgdone \<and> wg (cl st_stop_duplex) = 4 \<and>
   (\<exists>s'. step demo_env (Sess 0 HWgDone) st_stop_duplex = Some s' \<and>
      hpc (sessions s' ! 0) = H_finished \<and> wg (cl s') = 3) \<and>
   (\<exists>s'. step demo_env (Sess 0 DWgDone) st_stop_duplex = Some s' \<and>
      dpc (sessions s' ! 0) = D_finished \<and> wg (cl s') = 3) \<and>
   (\<exists>s'. step demo_env (Sess 0 (CWgDone Accepted)) st_stop_duplex = Some s' \<and>
      cpc (sessions s' ! 0) Accepted = C_finished \<and> wg (cl s') = 3) \<and>
   exec demo_env run_copy_failed (demo_state []) = Some st_copy_failed \<and>
   status st_copy_failed = Running \<and>
   cpc (sessions st_copy_failed ! 0) Remote
     = C_returned (Some (OpError ''read'' ''use of closed network connection'')) \<and>
   wg (cl st_copy_failed) = 3 \<and>
   (\<exists>s'. exec demo_env [Sess 0 (CClassify Remote), Sess 0 (CSend Remote), Sess 0 (CWgDone Remote)]
            st_copy_failed = Some s' \<and>
      cpc (sessions s' ! 0) Remote = C_finished \<and> wg (cl s') = 2)"
proof -
  note a = view_fields [OF session_end [THEN conjunct2]]
  note b = view_fields [OF half_close [THEN conjunct2]]
  note c = view_fields [OF stop [THEN conjunct2]]
  note d = view_fields [OF stop_recv [THEN conjunct2]]
  note e = view_fields [OF stop_duplex [THEN conjunct2]]
  note f = view_fields [OF copy_failed [THEN conjunct2]]
  have e1: "exec demo_env run_session_end (main_state '':8080'' ''10.0.0.1:80'' [] 10 30) = Some st_session_end"
    using session_end by (simp add: demo_state_def)
  have e2: "exec demo_env run_half_close (main_state '':8080'' ''10.0.0.1:80'' [] 10 30) = Some st_half_close"
    using half_close by (simp add: demo_state_def)
  have e3: "exec demo_env run_stop (main_state '':8080'' ''10.0.0.1:80'' [] 10 30) = Some st_stop"
    using stop by (simp add: demo_state_def)
  have e4: "exec demo_env run_stop_recv (main_state '':8080'' ''10.0.0.1:80'' [] 10 30) = Some st_stop_recv"
    using stop_recv by (simp add: demo_state_def)
  have e5: "exec demo_env run_stop_duplex (main_state '':8080'' ''10.0.0.1:80'' [] 10 30) = Some st_stop_duplex"
    using stop_duplex by (simp add: demo_state_def)
  have e6: "exec demo_env run_copy_failed (main_state '':8080'' ''10.0.0.1:80'' [] 10 30) = Some st_copy_failed"
    using copy_failed by (simp add: demo_state_def)
  obtain ss where ss: "sessions st_session_end = [ss]"
    using a(6) by (cases "sessions st_session_end") auto
  have fin: "\<forall>ss \<in> set (sessions st_session_end). hpc ss = H_finished \<and> dpc ss = D_finished \<and>
          cpc ss Accepted = C_finished \<and> cpc ss Remote = C_finished"
    using a(7,8,9,10) ss by simp
  have z: "wg (cl st_session_end) = 0"
    using wg_counts_live_tasks [OF e1] fin by blast
  have n: "step demo_env (Sess 0 HWgDone) st_session_end = None \<and>
      step demo_env (Sess 0 DWgDone) st_session_end = None \<and>
      step demo_env (Sess 0 (CWgDone Accepted)) st_session_end = None"
    using wg_counts_live_tasks [OF e1, where i = 0 and d = Accepted] a(6,7,8,9) by simp
  have t: "sum_list (map live (sessions st_half_close)) = 3"
    using wg_counts_live_tasks [OF e2] b(3) by simp
  have r3: "\<exists>s'. exec demo_env [Sess 0 HSelect, Sess 0 HCloseRemote, Sess 0 HCloseAccepted, Sess 0 HWgDone]
            st_stop = Some s' \<and>
      hpc (sessions s' ! 0) = H_finished \<and> wg (cl s') = 3"
    using wg_counts_live_tasks [OF e3, where i = 0] c(1,3,4,6,7) by (auto simp del: exec.simps)
  have r4: "\<exists>s'. exec demo_env [Sess 0 DCloseCh, Sess 0 DWgDone] st_stop_recv = Some s' \<and>
      dpc (sessions s' ! 0) = D_finished \<and> wg (cl s') = 3"
    using wg_counts_live_tasks [OF e4, where i = 0] d(1,3,6,8) by (auto simp del: exec.simps)
  have r5: "(\<exists>s'. step demo_env (Sess 0 HWgDone) st_stop_duplex = Some s' \<and>
      hpc (sessions s' ! 0) = H_finished \<and> wg (cl s') = 3) \<and>
   (\<exists>s'. step demo_env (Sess 0 DWgDone) st_stop_duplex = Some s' \<and>
      dpc (sessions s' ! 0) = D_finished \<and> wg (cl s') = 3) \<and>
   (\<exists>s'. step demo_env (Sess 0 (CWgDone Accepted)) st_stop_duplex = Some s' \<and>
      cpc (sessions s' ! 0) Accepted = C_finished \<and> wg (cl s') = 3)"
    using wg_counts_live_tasks [OF e5, where i = 0 and d = Accepted] e(1,3,6,7,8,9) by (auto simp del: exec.simps)
  have r6: "\<exists>s'. exec demo_env [Sess 0 (CClassify Remote), Sess 0 (CSend Remote), Sess 0 (CWgDone Remote)]
            st_copy_failed = Some s' \<and>
      cpc (sessions s' ! 0) Remote = C_finished \<and> wg (cl s') = 2"
    using wg_counts_live_tasks [OF e6, where i = 0 and d = Remote
        and err = "Some (OpError ''read'' ''use of closed network connection'')"] f(1,3,6,10)
    by (auto simp del: exec.simps)
  show ?thesis
    using z n t r3 r4 r5 r6 session_end half_close stop stop_recv stop_duplex copy_failed
      a(6,7,8,9,10) b(3,7,10) c(1,3,4,7) d(1,3,4,8) e(1,3,4,7,8,9) f(1,3,10)
    by simp
qed








end
